theory Spec2Isabelle
  imports Main "HOL-Library.Word"
begin

unbundle bit_operations_syntax

section \<open>Strings: the Go library calls of the handler\<close>

text \<open>
  Go strings are byte sequences; they are modelled as \<open>string\<close> (a list of \<open>char\<close>,
  one per byte). The functions below are the ones \<open>server.go\<close> calls from the packages
  \<open>strings\<close>, \<open>path/filepath\<close> and \<open>strconv\<close>.
\<close>

text \<open>\<open>strings.HasPrefix(s, prefix)\<close>.\<close>

fun HasPrefix :: "string \<Rightarrow> string \<Rightarrow> bool" where
  "HasPrefix s [] = True"
| "HasPrefix [] (p # ps) = False"
| "HasPrefix (c # cs) (p # ps) = (c = p \<and> HasPrefix cs ps)"

text \<open>\<open>strings.TrimPrefix(s, prefix)\<close>: removes one leading occurrence of the prefix.\<close>

definition TrimPrefix :: "string \<Rightarrow> string \<Rightarrow> string" where
  "TrimPrefix s prefix = (if HasPrefix s prefix then drop (length prefix) s else s)"

text \<open>\<open>strings.Contains(s, substr)\<close>: \<open>substr\<close> occurs in \<open>s\<close> as a contiguous block.\<close>

fun Contains :: "string \<Rightarrow> string \<Rightarrow> bool" where
  "Contains [] substr = (substr = [])"
| "Contains (c # cs) substr = (HasPrefix (c # cs) substr \<or> Contains cs substr)"

text \<open>
  \<open>strings.ToLower\<close>, after its Go source: a string whose bytes are all ASCII (below
  \<open>utf8.RuneSelf\<close>, 128) is lowered byte by byte, the letters \<open>A\<close> to \<open>Z\<close> (65 to 90)
  moving to \<open>a\<close> to \<open>z\<close>; any other string goes to \<open>strings.Map(unicode.ToLower, s)\<close>,
  which rests on the Unicode tables and is the parameter \<open>lower_runes\<close>.
\<close>

definition lower_char :: "char \<Rightarrow> char" where
  "lower_char c =
     (let n = (of_char c :: nat) in if 65 \<le> n \<and> n \<le> 90 then char_of (n + 32) else c)"

definition ToLower :: "(string \<Rightarrow> string) \<Rightarrow> string \<Rightarrow> string" where
  "ToLower lower_runes s =
     (if list_all (\<lambda>c. (of_char c :: nat) < 128) s then map lower_char s else lower_runes s)"

text \<open>
  \<open>filepath.Ext(path)\<close>: the suffix starting at the last dot of the last path element,
  empty when that element has no dot. The Go loop walks from the last byte backwards
  and stops at a separator; \<open>ExtScan\<close> takes the reversed path and the bytes passed so far.
\<close>

fun ExtScan :: "string \<Rightarrow> string \<Rightarrow> string" where
  "ExtScan [] passed = []"
| "ExtScan (c # cs) passed =
     (if c = CHR ''/'' then []
      else if c = CHR ''.'' then c # passed
      else ExtScan cs (c # passed))"

definition Ext :: "string \<Rightarrow> string" where
  "Ext path = ExtScan (rev path) []"

text \<open>\<open>strconv.Itoa\<close> and \<open>strconv.FormatUint(_, 36)\<close>.\<close>

definition digit_char :: "nat \<Rightarrow> char" where
  "digit_char d = ''0123456789abcdefghijklmnopqrstuvwxyz'' ! d"

fun FormatNat :: "nat \<Rightarrow> nat \<Rightarrow> string" where
  "FormatNat base n =
     (if n < base \<or> base < 2 then [digit_char n]
      else FormatNat base (n div base) @ [digit_char (n mod base)])"

declare FormatNat.simps [simp del]

definition Itoa :: "int \<Rightarrow> string" where
  "Itoa i = (if i < 0 then CHR ''-'' # FormatNat 10 (nat (- i)) else FormatNat 10 (nat i))"

section \<open>HTTP messages\<close>

text \<open>
  A header map (\<open>http.Header\<close>) holds, for the keys the handler touches, one value per
  key; all keys in \<open>server.go\<close> are already in canonical form. \<open>Get\<close> of an absent key
  is the empty string.
\<close>

type_synonym header = "string \<rightharpoonup> string"

definition Header_Get :: "header \<Rightarrow> string \<Rightarrow> string" where
  "Header_Get h k = (case h k of None \<Rightarrow> [] | Some v \<Rightarrow> v)"

record request =
  Method :: string
  Path :: string
  Header :: header

text \<open>
  The response writer as the handler sees it: the status passed to \<open>WriteHeader\<close>
  (\<open>None\<close> until it is called), the header map and the bytes written so far. A response
  that never calls \<open>WriteHeader\<close> goes out as 200.
\<close>

record response =
  Code :: "nat option"
  HeaderMap :: header
  Body :: string

definition new_response :: response where
  "new_response = \<lparr>Code = None, HeaderMap = Map.empty, Body = []\<rparr>"

definition status :: "response \<Rightarrow> nat" where
  "status rw = (case Code rw of None \<Rightarrow> 200 | Some c \<Rightarrow> c)"

definition Header_Set :: "response \<Rightarrow> string \<Rightarrow> string \<Rightarrow> response" where
  "Header_Set rw k v = rw\<lparr>HeaderMap := (HeaderMap rw)(k \<mapsto> v)\<rparr>"

definition Header_Del :: "response \<Rightarrow> string \<Rightarrow> response" where
  "Header_Del rw k = rw\<lparr>HeaderMap := (HeaderMap rw)(k := None)\<rparr>"

definition WriteHeader :: "response \<Rightarrow> nat \<Rightarrow> response" where
  "WriteHeader rw c = (if Code rw = None then rw\<lparr>Code := Some c\<rparr> else rw)"

definition Write :: "response \<Rightarrow> string \<Rightarrow> response" where
  "Write rw bs = (let rw' = WriteHeader rw 200 in rw'\<lparr>Body := Body rw' @ bs\<rparr>)"

text \<open>\<open>http.Error\<close> and \<open>http.NotFound\<close> (Go 1.17, the version of \<open>go.mod\<close>).\<close>

definition Error :: "response \<Rightarrow> string \<Rightarrow> nat \<Rightarrow> response" where
  "Error rw msg c =
     Write (WriteHeader
              (Header_Set (Header_Set rw ''Content-Type'' ''text/plain; charset=utf-8'')
                 ''X-Content-Type-Options'' ''nosniff'') c)
           (msg @ [CHR 0x0A])"

definition NotFound :: "response \<Rightarrow> request \<Rightarrow> response" where
  "NotFound rw req = Error rw ''404 page not found'' 404"

section \<open>Files, encodings and the server\<close>

datatype error = Err string

text \<open>
  An \<open>io.Reader\<close>: the bytes it yields, the error that ends the stream (\<open>None\<close> for a
  clean end of file), and whether the value is also an \<open>io.ReadSeeker\<close>.
\<close>

record reader =
  content :: string
  failure :: "error option"
  seeker :: bool

record DirEntry =
  Name :: string
  IsDir :: bool

text \<open>The file system collaborator \<open>fs.ReadDirFS\<close>.\<close>

record FS =
  ReadDir :: "string \<Rightarrow> error + DirEntry list"
  Open :: "string \<Rightarrow> error + reader"

type_synonym decoder = "reader \<Rightarrow> error + reader"

text \<open>\<open>type Encoding struct\<close>; a nil \<open>Decoder\<close> is \<open>None\<close>.\<close>

record Encoding =
  FileExt :: string
  ContentEncoding :: string
  Decoder :: "decoder option"

text \<open>\<open>type fileInfo struct { hash string; size int64 }\<close>.\<close>

record fileInfo =
  hash :: string
  size_bytes :: int

text \<open>\<open>type Server struct\<close>.\<close>

record Server =
  OnError :: "response \<Rightarrow> request \<Rightarrow> error \<Rightarrow> response"
  Encodings :: "Encoding list"
  info :: "string \<rightharpoonup> fileInfo"
  fs :: FS

text \<open>
  The standard-library collaborators that are taken as parameters: the MIME table
  behind \<open>mime.TypeByExtension\<close>, \<open>http.ServeContent\<close> (called with the zero
  modification time), and \<open>strings.Map(unicode.ToLower, _)\<close>, which \<open>strings.ToLower\<close>
  applies to a string with a byte outside ASCII.
\<close>

record lib =
  TypeByExtension :: "string \<Rightarrow> string"
  ServeContent :: "response \<Rightarrow> request \<Rightarrow> string \<Rightarrow> reader \<Rightarrow> response"
  LowerRunes :: "string \<Rightarrow> string"

text \<open>What a call did beside writing the response: files opened, decoders invoked.\<close>

datatype event = FsOpen string | Decompress

section \<open>\<open>Server.serve\<close>\<close>

text \<open>
  \<open>io.Copy(rw, r)\<close>: writes what the reader yields (no \<open>Write\<close> call when it yields
  nothing) and returns the reader's error.
\<close>

definition Copy :: "response \<Rightarrow> reader \<Rightarrow> response \<times> error option" where
  "Copy rw r = ((if content r = [] then rw else Write rw (content r)), failure r)"

text \<open>Lines 156 to 167 of \<open>server.go\<close>: hand the stream to \<open>ServeContent\<close> or copy it.\<close>

definition send :: "lib \<Rightarrow> Server \<Rightarrow> response \<Rightarrow> request \<Rightarrow> string \<Rightarrow> reader \<Rightarrow> response" where
  "send L s rw req fn r =
     (if seeker r then ServeContent L rw req fn r
      else (case Copy rw r of
              (rw', None) \<Rightarrow> rw'
            | (rw', Some err) \<Rightarrow> OnError s rw' req err))"

text \<open>Lines 146 to 167: the optional decode, then the body.\<close>

definition transfer ::
  "lib \<Rightarrow> Server \<Rightarrow> response \<Rightarrow> request \<Rightarrow> string \<Rightarrow> reader \<Rightarrow> decoder option
     \<Rightarrow> event list \<times> response" where
  "transfer L s rw req fn r decompress =
     (case decompress of
        None \<Rightarrow> ([], send L s rw req fn r)
      | Some d \<Rightarrow>
          (case d r of
             Inl err \<Rightarrow> ([Decompress], OnError s (Header_Del rw ''Etag'') req err)
           | Inr r' \<Rightarrow> ([Decompress], send L s rw req fn r')))"

text \<open>Lines 117 to 120: the content type of the asset's own name.\<close>

definition ctype_of :: "lib \<Rightarrow> string \<Rightarrow> string" where
  "ctype_of L fn =
     (let ctype = TypeByExtension L (Ext fn)
      in if ctype = [] then ''application/octet-stream'' else ctype)"

text \<open>Lines 122 to 127: the headers set before the file is opened.\<close>

definition set_headers :: "lib \<Rightarrow> response \<Rightarrow> string \<Rightarrow> string \<Rightarrow> string \<Rightarrow> response" where
  "set_headers L rw fn enc h =
     (let rw1 = Header_Set (Header_Set rw ''Content-Type'' (ctype_of L fn)) ''Etag'' h
      in if enc \<noteq> [] then Header_Set rw1 ''Content-Encoding'' enc else rw1)"

text \<open>Lines 138 to 140; \<open>int(cl)\<close> is the identity where \<open>int\<close> has 64 bits.\<close>

definition set_length :: "response \<Rightarrow> int \<Rightarrow> response" where
  "set_length rw cl = (if cl > 0 then Header_Set rw ''Content-Length'' (Itoa cl) else rw)"

text \<open>\<open>func (s *Server) serve(rw, req, fn, suf, enc, hash, cl, decompress)\<close>.\<close>

definition serve ::
  "lib \<Rightarrow> Server \<Rightarrow> response \<Rightarrow> request \<Rightarrow> string \<Rightarrow> string \<Rightarrow> string \<Rightarrow> string \<Rightarrow> int
     \<Rightarrow> decoder option \<Rightarrow> event list \<times> response" where
  "serve L s rw req fn suf enc h cl decompress =
     (if Header_Get (Header req) ''If-None-Match'' = h then ([], WriteHeader rw 304)
      else
        (let rw2 = set_headers L rw fn enc h in
         case Open (fs s) (fn @ suf) of
           Inl err \<Rightarrow> ([FsOpen (fn @ suf)], OnError s rw2 req err)
         | Inr r \<Rightarrow>
             (let rw3 = set_length rw2 cl in
              if Method req = ''HEAD'' then ([FsOpen (fn @ suf)], rw3)
              else (case transfer L s rw3 req fn r decompress of
                      (ev, rw4) \<Rightarrow> (FsOpen (fn @ suf) # ev, rw4)))))"

section \<open>\<open>Server.ServeHTTP\<close>\<close>

text \<open>
  The first loop (lines 185 to 199): the first encoding named in the lower-cased header
  whose sidecar is in the index. \<open>ae\<close> is the header after \<open>strings.ToLower\<close>.
\<close>

fun accepted :: "(string \<rightharpoonup> fileInfo) \<Rightarrow> string \<Rightarrow> string \<Rightarrow> Encoding list
    \<Rightarrow> (Encoding \<times> fileInfo) option" where
  "accepted idx fn ae [] = None"
| "accepted idx fn ae (enc # encs) =
     (if \<not> Contains ae (ContentEncoding enc) then accepted idx fn ae encs
      else (case idx (fn @ FileExt enc) of
              None \<Rightarrow> accepted idx fn ae encs
            | Some i \<Rightarrow> Some (enc, i)))"

text \<open>The second loop (lines 211 to 220): the first stored sidecar with a decoder.\<close>

fun decodable :: "(string \<rightharpoonup> fileInfo) \<Rightarrow> string \<Rightarrow> Encoding list
    \<Rightarrow> (Encoding \<times> fileInfo \<times> decoder) option" where
  "decodable idx fn [] = None"
| "decodable idx fn (enc # encs) =
     (case idx (fn @ FileExt enc) of
        None \<Rightarrow> decodable idx fn encs
      | Some i \<Rightarrow>
          (case Decoder enc of
             None \<Rightarrow> decodable idx fn encs
           | Some d \<Rightarrow> Some (enc, i, d)))"

text \<open>\<open>func (s *Server) ServeHTTP(rw, req)\<close>.\<close>

definition ServeHTTP :: "lib \<Rightarrow> Server \<Rightarrow> response \<Rightarrow> request \<Rightarrow> event list \<times> response" where
  "ServeHTTP L s rw req =
     (if Method req \<noteq> ''GET'' \<and> Method req \<noteq> ''HEAD'' then
        ([], Error (Header_Set rw ''Allow'' ''GET, HEAD'')
               (''Method Not Allowed'' @ [CHR 0x0A, CHR 0x0A] @ ''method should be GET or HEAD'')
               405)
      else
        (let fn = TrimPrefix (Path req) ''/'';
             ae = Header_Get (Header req) ''Accept-Encoding''
         in case (if ae \<noteq> [] then accepted (info s) fn (ToLower (LowerRunes L) ae) (Encodings s) else None) of
              Some (enc, i) \<Rightarrow>
                serve L s rw req fn (FileExt enc) (ContentEncoding enc) (hash i) (size_bytes i) None
            | None \<Rightarrow>
                (case info s fn of
                   Some i \<Rightarrow> serve L s rw req fn [] [] (hash i) (size_bytes i) None
                 | None \<Rightarrow>
                     (case decodable (info s) fn (Encodings s) of
                        Some (enc, i, d) \<Rightarrow>
                          serve L s rw req fn (FileExt enc) [] (hash i @ ''U'') 0 (Some d)
                      | None \<Rightarrow> ([], NotFound rw req)))))"

text \<open>The default error hook installed by \<open>FileServer\<close>.\<close>

definition default_OnError :: "response \<Rightarrow> request \<Rightarrow> error \<Rightarrow> response" where
  "default_OnError rw r err = Error rw ''Internal Server Error'' 500"

text \<open>
  The arguments of the \<open>serve\<close> call that \<open>ServeHTTP\<close> makes for a GET or HEAD request:
  asset name, suffix, encoding, validator, content length and decoder. \<open>None\<close> when it
  reaches \<open>http.NotFound\<close>. Lemma \<open>ServeHTTP_selected\<close> ties it to \<open>ServeHTTP\<close>.
\<close>

definition selected ::
  "lib \<Rightarrow> Server \<Rightarrow> request \<Rightarrow> (string \<times> string \<times> string \<times> string \<times> int \<times> decoder option) option" where
  "selected L s req =
     (let fn = TrimPrefix (Path req) ''/'';
          ae = Header_Get (Header req) ''Accept-Encoding''
      in case (if ae \<noteq> [] then accepted (info s) fn (ToLower (LowerRunes L) ae) (Encodings s) else None) of
           Some (enc, i) \<Rightarrow> Some (fn, FileExt enc, ContentEncoding enc, hash i, size_bytes i, None)
         | None \<Rightarrow>
             (case info s fn of
                Some i \<Rightarrow> Some (fn, [], [], hash i, size_bytes i, None)
              | None \<Rightarrow>
                  (case decodable (info s) fn (Encodings s) of
                     Some (enc, i, d) \<Rightarrow> Some (fn, FileExt enc, [], hash i @ ''U'', 0, Some d)
                   | None \<Rightarrow> None)))"

text \<open>\<open>func GzipEncoding() Encoding\<close>; \<open>gunzip\<close> stands for \<open>gzip.NewReader\<close>.\<close>

definition GzipEncoding :: "decoder \<Rightarrow> Encoding" where
  "GzipEncoding gunzip = \<lparr>FileExt = ''.gz'', ContentEncoding = ''gzip'', Decoder = Some gunzip\<rparr>"

text \<open>\<open>func OnError(onErr) func(server *Server)\<close>, the option that replaces the hook.\<close>

definition OnError_option ::
  "(response \<Rightarrow> request \<Rightarrow> error \<Rightarrow> response) \<Rightarrow> Server \<Rightarrow> Server" where
  "OnError_option onErr server = server\<lparr>OnError := onErr\<rparr>"

section \<open>\<open>Server.hashDir\<close> and \<open>FileServer\<close>\<close>

text \<open>
  \<open>path.Clean\<close>, after the Go source: the output buffer is kept reversed in \<open>tuo\<close>,
  \<open>dotdot\<close> is the length below which the buffer is not unwound, and \<open>unwind\<close> is the
  loop that drops the last element for a \<open>..\<close>.
\<close>

fun unwind :: "nat \<Rightarrow> char \<Rightarrow> string \<Rightarrow> string" where
  "unwind dotdot removed [] = []"
| "unwind dotdot removed (c # tuo) =
     (if length (c # tuo) > dotdot \<and> removed \<noteq> CHR ''/'' then unwind dotdot c tuo else c # tuo)"

function clean_from :: "bool \<Rightarrow> nat \<Rightarrow> string \<Rightarrow> string \<Rightarrow> string" where
  "clean_from rooted dotdot tuo [] = rev tuo"
| "clean_from rooted dotdot tuo (c # cs) =
     (if c = CHR ''/'' then clean_from rooted dotdot tuo cs
      else if c = CHR ''.'' \<and> (case cs of [] \<Rightarrow> True | d # ds \<Rightarrow> d = CHR ''/'') then
        clean_from rooted dotdot tuo cs
      else if c = CHR ''.'' \<and>
              (case cs of
                 [] \<Rightarrow> False
               | d # ds \<Rightarrow> d = CHR ''.'' \<and> (case ds of [] \<Rightarrow> True | e # es \<Rightarrow> e = CHR ''/'')) then
        (if length tuo > dotdot then
           clean_from rooted dotdot (case tuo of [] \<Rightarrow> [] | x # t \<Rightarrow> unwind dotdot x t) (tl cs)
         else if \<not> rooted then
           (let tuo' = CHR ''.'' # CHR ''.'' # (if tuo \<noteq> [] then CHR ''/'' # tuo else tuo)
            in clean_from rooted (length tuo') tuo' (tl cs))
         else clean_from rooted dotdot tuo (tl cs))
      else
        (let tuo' = (if (rooted \<and> length tuo \<noteq> 1) \<or> (\<not> rooted \<and> length tuo \<noteq> 0)
                     then CHR ''/'' # tuo else tuo)
         in clean_from rooted dotdot
              (rev (takeWhile (\<lambda>x. x \<noteq> CHR ''/'') cs) @ c # tuo')
              (dropWhile (\<lambda>x. x \<noteq> CHR ''/'') cs)))"
  by pat_completeness auto
termination
  by (relation "measure (\<lambda>(rooted, dotdot, tuo, inp). length inp)")
     (auto simp: length_dropWhile_le le_imp_less_Suc split: list.splits)

definition Clean :: "string \<Rightarrow> string" where
  "Clean path =
     (case path of
        [] \<Rightarrow> ''.''
      | c # cs \<Rightarrow>
          (let out = (if c = CHR ''/'' then clean_from True 1 ''/'' cs
                      else clean_from False 0 [] (c # cs))
           in if out = [] then ''.'' else out))"

text \<open>\<open>path.Join\<close> of two elements.\<close>

definition Join :: "string \<Rightarrow> string \<Rightarrow> string" where
  "Join a b =
     (if a = [] \<and> b = [] then []
      else Clean (if a \<noteq> [] then a @ ''/'' @ b else b))"

text \<open>\<open>fnv.New64\<close>: 64-bit FNV-1, multiply by the prime, then xor the byte.\<close>

definition offset64 :: "64 word" where
  "offset64 = 14695981039346656037"

definition prime64 :: "64 word" where
  "prime64 = 1099511628211"

fun fnv1 :: "64 word \<Rightarrow> string \<Rightarrow> 64 word" where
  "fnv1 h [] = h"
| "fnv1 h (c # cs) = fnv1 ((h * prime64) XOR of_nat (of_char c)) cs"

text \<open>The record stored for a file whose bytes are \<open>bs\<close> (lines 88 to 103).\<close>

definition fileInfo_of :: "string \<Rightarrow> fileInfo" where
  "fileInfo_of bs =
     \<lparr>hash = FormatNat 36 (unat (fnv1 offset64 bs)), size_bytes = int (length bs)\<rparr>"

type_synonym index = "string \<rightharpoonup> fileInfo"

text \<open>
  The loop over the entries of one directory (lines 77 to 104); \<open>recur\<close> is the
  recursive call \<open>s.hashDir(fn)\<close>. \<open>None\<close> stands for a walk that has not returned.
\<close>

fun hashFiles ::
  "(index \<Rightarrow> string \<Rightarrow> (error + index) option) \<Rightarrow> FS \<Rightarrow> index \<Rightarrow> string \<Rightarrow> DirEntry list
     \<Rightarrow> (error + index) option" where
  "hashFiles recur fsys idx p [] = Some (Inr idx)"
| "hashFiles recur fsys idx p (f # files) =
     (let fn = Join p (Name f) in
      if IsDir f then
        (case recur idx fn of
           None \<Rightarrow> None
         | Some (Inl err) \<Rightarrow> Some (Inl err)
         | Some (Inr idx') \<Rightarrow> hashFiles recur fsys idx' p files)
      else
        (case Open fsys fn of
           Inl err \<Rightarrow> Some (Inl err)
         | Inr r \<Rightarrow>
             (case failure r of
                Some err \<Rightarrow> Some (Inl err)
              | None \<Rightarrow>
                  hashFiles recur fsys (idx(Clean fn \<mapsto> fileInfo_of (content r))) p files)))"

text \<open>
  \<open>func (s *Server) hashDir(p string) error\<close>, with the index passed through. The first
  argument bounds the depth of the recursion: a file system is not known to be finite.
\<close>

primrec hashDir :: "nat \<Rightarrow> FS \<Rightarrow> index \<Rightarrow> string \<Rightarrow> (error + index) option" where
  "hashDir 0 fsys idx p = None"
| "hashDir (Suc n) fsys idx p =
     (case ReadDir fsys p of
        Inl err \<Rightarrow> Some (Inl err)
      | Inr files \<Rightarrow> hashFiles (hashDir n fsys) fsys idx p files)"

text \<open>
  \<open>func FileServer(fs, options...)\<close>: \<open>Inl\<close> is the panic. \<open>gunzip\<close> stands for
  \<open>gzip.NewReader\<close>, \<open>fuel\<close> bounds the depth of the walk.
\<close>

definition FileServer ::
  "nat \<Rightarrow> decoder \<Rightarrow> FS \<Rightarrow> (Server \<Rightarrow> Server) list \<Rightarrow> (error + Server) option" where
  "FileServer fuel gunzip fsys options =
     (let s = fold (\<lambda>opt s. opt s) options
                \<lparr>OnError = default_OnError, Encodings = [GzipEncoding gunzip],
                 info = Map.empty, fs = fsys\<rparr>
      in case hashDir fuel (fs s) (info s) ''.'' of
           None \<Rightarrow> None
         | Some (Inl err) \<Rightarrow> Some (Inl err)
         | Some (Inr idx) \<Rightarrow> Some (Inr (s\<lparr>info := idx\<rparr>)))"

section \<open>File trees\<close>

text \<open>
  What a walk can meet under a path: a file that opens (its stream may still fail while
  it is read), a file that does not open, a directory with its entries in listing
  order, a directory that cannot be listed.
\<close>

datatype node =
    File reader
  | NoFile error
  | Dir "(string \<times> node) list"
  | NoDir error

fun is_dir :: "node \<Rightarrow> bool" where
  "is_dir (Dir es) = True"
| "is_dir (NoDir e) = True"
| "is_dir t = False"

definition entry_of :: "string \<times> node \<Rightarrow> DirEntry" where
  "entry_of e = \<lparr>Name = fst e, IsDir = is_dir (snd e)\<rparr>"

text \<open>The file system shows the tree \<open>t\<close> at the path \<open>p\<close>.\<close>

fun realizes :: "FS \<Rightarrow> string \<Rightarrow> node \<Rightarrow> bool"
  and realizes_in :: "FS \<Rightarrow> string \<Rightarrow> (string \<times> node) list \<Rightarrow> bool" where
  "realizes fsys p (File r) = (Open fsys p = Inr r)"
| "realizes fsys p (NoFile e) = (Open fsys p = Inl e)"
| "realizes fsys p (NoDir e) = (ReadDir fsys p = Inl e)"
| "realizes fsys p (Dir es) = (ReadDir fsys p = Inr (map entry_of es) \<and> realizes_in fsys p es)"
| "realizes_in fsys p [] = True"
| "realizes_in fsys p (e # es) = (realizes fsys (Join p (fst e)) (snd e) \<and> realizes_in fsys p es)"

text \<open>Every file opens and reads to its end, every directory lists.\<close>

fun readable :: "node \<Rightarrow> bool"
  and readable_in :: "(string \<times> node) list \<Rightarrow> bool" where
  "readable (File r) = (failure r = None)"
| "readable (NoFile e) = False"
| "readable (NoDir e) = False"
| "readable (Dir es) = readable_in es"
| "readable_in [] = True"
| "readable_in (e # es) = (readable (snd e) \<and> readable_in es)"

text \<open>The files of the tree in walk order, each with the path the walk builds for it.\<close>

fun files_of :: "string \<Rightarrow> node \<Rightarrow> (string \<times> string) list"
  and files_in :: "string \<Rightarrow> (string \<times> node) list \<Rightarrow> (string \<times> string) list" where
  "files_of p (File r) = [(p, content r)]"
| "files_of p (NoFile e) = []"
| "files_of p (NoDir e) = []"
| "files_of p (Dir es) = files_in p es"
| "files_in p [] = []"
| "files_in p (e # es) = files_of (Join p (fst e)) (snd e) @ files_in p es"

text \<open>The nesting of directories: the depth the walk needs.\<close>

fun depth :: "node \<Rightarrow> nat"
  and depth_in :: "(string \<times> node) list \<Rightarrow> nat" where
  "depth (File r) = 0"
| "depth (NoFile e) = 0"
| "depth (NoDir e) = 1"
| "depth (Dir es) = Suc (depth_in es)"
| "depth_in [] = 0"
| "depth_in (e # es) = max (depth (snd e)) (depth_in es)"

text \<open>Storing records in order: a later record for the same key replaces an earlier one.\<close>

definition store :: "(string \<times> string) list \<Rightarrow> index \<Rightarrow> index" where
  "store entries idx = fold (\<lambda>(fn, bs) m. m(Clean fn \<mapsto> fileInfo_of bs)) entries idx"

section \<open>The specification's negotiator\<close>

text \<open>
  The two readings of "the wire name appears in the header": case-insensitively, as the
  specification words it, and as a substring of the lower-cased header.
\<close>

definition appears_nocase :: "lib \<Rightarrow> string \<Rightarrow> string \<Rightarrow> bool" where
  "appears_nocase L wire hdr = Contains (ToLower (LowerRunes L) hdr) (ToLower (LowerRunes L) wire)"

definition appears_lowered :: "lib \<Rightarrow> string \<Rightarrow> string \<Rightarrow> bool" where
  "appears_lowered L wire hdr = Contains (ToLower (LowerRunes L) hdr) wire"

text \<open>
  The three resolutions of section 4.2 of the specification, tried in order, written
  with \<open>find\<close> over the registry; \<open>appears\<close> is the test of a wire name against the
  Accept-Encoding header.
\<close>

definition spec_resolution ::
  "(string \<Rightarrow> string \<Rightarrow> bool) \<Rightarrow> lib \<Rightarrow> Server \<Rightarrow> response \<Rightarrow> request \<Rightarrow> event list \<times> response" where
  "spec_resolution appears L s rw req =
     (let p = TrimPrefix (Path req) ''/'';
          ae = Header_Get (Header req) ''Accept-Encoding''
      in case (if ae \<noteq> []
               then find (\<lambda>c. appears (ContentEncoding c) ae \<and> info s (p @ FileExt c) \<noteq> None)
                      (Encodings s)
               else None) of
           Some c \<Rightarrow>
             (case info s (p @ FileExt c) of
                Some i \<Rightarrow> serve L s rw req p (FileExt c) (ContentEncoding c) (hash i) (size_bytes i) None
              | None \<Rightarrow> ([], NotFound rw req))
         | None \<Rightarrow>
             (case info s p of
                Some i \<Rightarrow> serve L s rw req p [] [] (hash i) (size_bytes i) None
              | None \<Rightarrow>
                  (case find (\<lambda>c. info s (p @ FileExt c) \<noteq> None \<and> Decoder c \<noteq> None) (Encodings s) of
                     Some c \<Rightarrow>
                       (case info s (p @ FileExt c) of
                          Some i \<Rightarrow> serve L s rw req p (FileExt c) [] (hash i @ ''U'') 0 (Decoder c)
                        | None \<Rightarrow> ([], NotFound rw req))
                   | None \<Rightarrow> ([], NotFound rw req))))"

text \<open>
  Modelled from the spec: \<open>Server.Found\<close> is not in \<open>server.go\<close>; only its test
  (\<open>TestServer_ServeHTTP_sub\<close>) and its example (\<open>ExampleServer_Found\<close>) are in the
  repository. Section 4.4: "a pure predicate -- does this request path resolve to a
  stored asset -- re-running only the existence check (no I/O, no header mutation)".
  The existence check re-run here is the handler's: the three steps of section 4.2 in
  order, with the header test the handler applies. The predicate takes the server and
  the request and returns a truth value: it has no response and no file system to act on.
\<close>

definition Found :: "lib \<Rightarrow> Server \<Rightarrow> request \<Rightarrow> bool" where
  "Found L s req =
     (let fn = TrimPrefix (Path req) ''/'';
          ae = Header_Get (Header req) ''Accept-Encoding''
      in (ae \<noteq> [] \<and>
            list_ex (\<lambda>enc. Contains (ToLower (LowerRunes L) ae) (ContentEncoding enc) \<and>
                        info s (fn @ FileExt enc) \<noteq> None) (Encodings s))
         \<or> info s fn \<noteq> None
         \<or> list_ex (\<lambda>enc. info s (fn @ FileExt enc) \<noteq> None \<and> Decoder enc \<noteq> None) (Encodings s))"

section \<open>A small site, for concrete evaluation\<close>

text \<open>
  A stand-in codec with the shape of gzip: the encoded form is a magic byte followed by
  the data; decoding anything else fails with gzip's error.
\<close>

definition toy_gzip :: "string \<Rightarrow> string" where
  "toy_gzip x = CHR ''Z'' # x"

definition toy_gunzip :: decoder where
  "toy_gunzip r =
     (case content r of
        [] \<Rightarrow> Inl (Err ''gzip: invalid header'')
      | c # rest \<Rightarrow>
          if c = CHR ''Z'' then Inr \<lparr>content = rest, failure = None, seeker = False\<rparr>
          else Inl (Err ''gzip: invalid header''))"

definition stream :: "string \<Rightarrow> reader" where
  "stream bs = \<lparr>content = bs, failure = None, seeker = False\<rparr>"

text \<open>
  The files: a raw text with its sidecar, two assets stored only compressed (one of
  them not a valid archive), and an empty sidecar.
\<close>

definition demo_files :: "(string \<times> string) list" where
  "demo_files =
     [(''a.txt'', ''hello''),
      (''a.txt.gz'', ''Zhello''),
      (''b.bin.gz'', ''Zdata''),
      (''bad.png.gz'', ''junk''),
      (''e.css.gz'', [])]"

definition demo_fs :: FS where
  "demo_fs =
     \<lparr>ReadDir = (\<lambda>p. if p = ''.''
                      then Inr (map (\<lambda>(n, bs). \<lparr>Name = n, IsDir = False\<rparr>) demo_files)
                      else Inl (Err ''not a directory'')),
      Open = (\<lambda>p. case map_of demo_files p of
                     Some bs \<Rightarrow> Inr (stream bs)
                   | None \<Rightarrow> Inl (Err ''file does not exist''))\<rparr>"

text \<open>Their index: the FNV-1 hashes in base 36 and the sizes (lemma \<open>demo_built\<close>).\<close>

definition demo_index :: "string \<rightharpoonup> fileInfo" where
  "demo_index =
     map_of
       [(''a.txt'', \<lparr>hash = ''1vhsp6t4dqdon'', size_bytes = 5\<rparr>),
        (''a.txt.gz'', \<lparr>hash = ''1tzxhg7i77cmf'', size_bytes = 6\<rparr>),
        (''b.bin.gz'', \<lparr>hash = ''10qtt5z46743h'', size_bytes = 5\<rparr>),
        (''bad.png.gz'', \<lparr>hash = ''3g54i76e4wrkb'', size_bytes = 4\<rparr>),
        (''e.css.gz'', \<lparr>hash = ''33niihzj4ux45'', size_bytes = 0\<rparr>)]"

definition demo_server :: Server where
  "demo_server =
     \<lparr>OnError = default_OnError, Encodings = [GzipEncoding toy_gunzip],
      info = demo_index, fs = demo_fs\<rparr>"

text \<open>The same site with the encoding registered under an upper-case wire name.\<close>

definition upper_server :: Server where
  "upper_server =
     demo_server\<lparr>Encodings := [\<lparr>FileExt = ''.gz'', ContentEncoding = ''GZIP'', Decoder = Some toy_gunzip\<rparr>]\<rparr>"

text \<open>The same site on a file system that refuses every open.\<close>

definition locked_server :: Server where
  "locked_server = demo_server\<lparr>fs := demo_fs\<lparr>Open := (\<lambda>p. Inl (Err ''permission denied''))\<rparr>\<rparr>"

text \<open>The same site on a file system whose reads break off after three bytes.\<close>

definition flaky_server :: Server where
  "flaky_server =
     demo_server\<lparr>fs := demo_fs\<lparr>Open :=
       (\<lambda>p. Inr \<lparr>content = ''Zhe'', failure = Some (Err ''unexpected EOF''), seeker = False\<rparr>)\<rparr>\<rparr>"

text \<open>The tree of the small site.\<close>

definition demo_entries :: "(string \<times> node) list" where
  "demo_entries = map (\<lambda>(n, bs). (n, File (stream bs))) demo_files"

text \<open>A tree with a subdirectory, the file system that shows it, and the flat tree of
  the site above when no file opens.\<close>

definition site_entries :: "(string \<times> node) list" where
  "site_entries =
     [(''a.txt'', File (stream ''hello'')),
      (''deeper'', Dir [(''b.bin.gz'', File (stream ''Zdata''))])]"

definition site_fs :: FS where
  "site_fs =
     \<lparr>ReadDir = (\<lambda>p. if p = ''.'' then Inr [\<lparr>Name = ''a.txt'', IsDir = False\<rparr>,
                                               \<lparr>Name = ''deeper'', IsDir = True\<rparr>]
                      else if p = ''deeper'' then Inr [\<lparr>Name = ''b.bin.gz'', IsDir = False\<rparr>]
                      else Inl (Err ''not a directory'')),
      Open = (\<lambda>p. if p = ''a.txt'' then Inr (stream ''hello'')
                   else if p = ''deeper/b.bin.gz'' then Inr (stream ''Zdata'')
                   else Inl (Err ''file does not exist''))\<rparr>"

definition locked_entries :: "(string \<times> node) list" where
  "locked_entries = map (\<lambda>(n, bs). (n, NoFile (Err ''permission denied''))) demo_files"

text \<open>
  A MIME table with one entry, and placeholders for \<open>http.ServeContent\<close> and for the
  lowering of strings outside ASCII; the streams and headers of the small site reach
  neither.
\<close>

definition demo_lib :: lib where
  "demo_lib =
     \<lparr>TypeByExtension = (\<lambda>e. if e = ''.txt'' then ''text/plain; charset=utf-8'' else []),
      ServeContent = (\<lambda>rw req name r. Write rw (content r)),
      LowerRunes = (\<lambda>s. s)\<rparr>"

text \<open>
  \<open>writeNotModified\<close> of \<open>net/http\<close> (Go 1.17): Content-Type and Content-Length are
  deleted, Last-Modified too when an ETag is set, and the status is 304.
\<close>

definition writeNotModified :: "response \<Rightarrow> response" where
  "writeNotModified rw =
     (let rw1 = Header_Del (Header_Del rw ''Content-Type'') ''Content-Length'';
          rw2 = (if Header_Get (HeaderMap rw1) ''Etag'' \<noteq> [] then Header_Del rw1 ''Last-Modified''
                 else rw1)
      in WriteHeader rw2 304)"

text \<open>
  The library with the one case of \<open>http.ServeContent\<close> that the examples on seekable
  streams reach: for a GET or HEAD request without If-Match whose If-None-Match is \<open>*\<close>,
  \<open>checkPreconditions\<close> (the modification time being zero, If-Unmodified-Since is
  skipped) finds \<open>checkIfNoneMatch\<close> false and answers with \<open>writeNotModified\<close>,
  before any byte is read. Every other request keeps the placeholder.
\<close>

definition star_lib :: lib where
  "star_lib =
     demo_lib\<lparr>ServeContent :=
       (\<lambda>rw req name r.
          if (Method req = ''GET'' \<or> Method req = ''HEAD'') \<and>
             Header_Get (Header req) ''If-Match'' = [] \<and>
             Header_Get (Header req) ''If-None-Match'' = ''*''
          then writeNotModified rw
          else ServeContent demo_lib rw req name r)\<rparr>"

text \<open>
  The same site on a file system whose files are seekable, as those of \<open>embed.FS\<close>
  and \<open>os.DirFS\<close> are.
\<close>

definition seekable_server :: Server where
  "seekable_server =
     demo_server\<lparr>fs := demo_fs\<lparr>Open :=
       (\<lambda>p. case Open demo_fs p of Inl err \<Rightarrow> Inl err | Inr r \<Rightarrow> Inr (r\<lparr>seeker := True\<rparr>))\<rparr>\<rparr>"

text \<open>
  The same site with a decoder that decodes into a buffer and returns a seekable reader
  over it (as \<open>bytes.NewReader\<close> gives).
\<close>

definition buffered_gunzip :: decoder where
  "buffered_gunzip r =
     (case toy_gunzip r of Inl err \<Rightarrow> Inl err | Inr r' \<Rightarrow> Inr (r'\<lparr>seeker := True\<rparr>))"

definition buffered_server :: Server where
  "buffered_server = demo_server\<lparr>Encodings := [GzipEncoding buffered_gunzip]\<rparr>"

definition get :: "string \<Rightarrow> (string \<times> string) list \<Rightarrow> request" where
  "get p hs = \<lparr>Method = ''GET'', Path = p, Header = map_of hs\<rparr>"

definition head :: "string \<Rightarrow> (string \<times> string) list \<Rightarrow> request" where
  "head p hs = \<lparr>Method = ''HEAD'', Path = p, Header = map_of hs\<rparr>"

section \<open>Properties\<close>

lemma HasPrefix_self: "HasPrefix s s"
  by (induction s) auto

subsection \<open>Shared lemmas: what \<open>ServeHTTP\<close> selects\<close>

lemma ServeHTTP_selected:
  "Method req = ''GET'' \<or> Method req = ''HEAD'' \<Longrightarrow>
   ServeHTTP L s rw req =
     (case selected L s req of
        None \<Rightarrow> ([], NotFound rw req)
      | Some (fn, suf, enc, h, cl, d) \<Rightarrow> serve L s rw req fn suf enc h cl d)"
  by (auto simp: ServeHTTP_def selected_def Let_def split: option.splits prod.splits)

lemma accepted_Some:
  "accepted idx fn ae encs = Some (enc, i) \<Longrightarrow>
   enc \<in> set encs \<and> Contains ae (ContentEncoding enc) \<and> idx (fn @ FileExt enc) = Some i"
  by (induction encs) (auto split: if_splits option.splits)

lemma decodable_Some:
  "decodable idx fn encs = Some (enc, i, d) \<Longrightarrow>
   enc \<in> set encs \<and> idx (fn @ FileExt enc) = Some i \<and> Decoder enc = Some d"
  by (induction encs) (auto split: option.splits)

lemma accepted_None:
  "accepted idx fn ae encs = None \<longleftrightarrow>
   \<not> list_ex (\<lambda>enc. Contains ae (ContentEncoding enc) \<and> idx (fn @ FileExt enc) \<noteq> None) encs"
  by (induction encs) (auto split: option.splits)

lemma decodable_None:
  "decodable idx fn encs = None \<longleftrightarrow>
   \<not> list_ex (\<lambda>enc. idx (fn @ FileExt enc) \<noteq> None \<and> Decoder enc \<noteq> None) encs"
  by (induction encs) (auto split: option.splits)

lemma decodable_only:
  "enc \<in> set encs \<Longrightarrow> idx (fn @ FileExt enc) = Some i \<Longrightarrow> Decoder enc = Some d \<Longrightarrow>
   \<forall>c\<in>set encs. idx (fn @ FileExt c) \<noteq> None \<longrightarrow> c = enc \<Longrightarrow>
   decodable idx fn encs = Some (enc, i, d)"
proof (induction encs)
  case Nil
  then show ?case by simp
next
  case (Cons c encs)
  show ?case
  proof (cases "idx (fn @ FileExt c)")
    case None
    with Cons.prems(1,2) have mem: "enc \<in> set encs" by auto
    from Cons.prems(4) have rest: "\<forall>c\<in>set encs. idx (fn @ FileExt c) \<noteq> None \<longrightarrow> c = enc"
      by (meson list.set_intros(2))
    from None Cons.IH[OF mem Cons.prems(2,3) rest] show ?thesis by simp
  next
    case (Some j)
    from Cons.prems(4) have "idx (fn @ FileExt c) \<noteq> None \<longrightarrow> c = enc"
      by (meson list.set_intros(1))
    with Some have "c = enc" by simp
    with Cons.prems(2,3) show ?thesis by simp
  qed
qed

lemma accepted_only:
  "\<forall>c\<in>set encs. idx (fn @ FileExt c) \<noteq> None \<longrightarrow> \<not> Contains ae (ContentEncoding c) \<Longrightarrow>
   accepted idx fn ae encs = None"
proof (induction encs)
  case Nil
  show ?case by simp
next
  case (Cons c encs)
  from Cons.prems have rest: "\<forall>c\<in>set encs. idx (fn @ FileExt c) \<noteq> None \<longrightarrow> \<not> Contains ae (ContentEncoding c)"
    by (meson list.set_intros(2))
  from Cons.prems have "idx (fn @ FileExt c) \<noteq> None \<longrightarrow> \<not> Contains ae (ContentEncoding c)"
    by (meson list.set_intros(1))
  with Cons.IH[OF rest] show ?case by (auto split: option.splits)
qed

lemma selected_cases:
  assumes "selected L s req = Some (fn, suf, enc, h, cl, d)"
  shows "fn = TrimPrefix (Path req) ''/'' \<and>
         (\<exists>i. info s (fn @ suf) = Some i \<and>
              (case d of
                 None \<Rightarrow> h = hash i \<and> cl = size_bytes i
               | Some dec \<Rightarrow> h = hash i @ ''U'' \<and> cl = 0 \<and> enc = []))"
  using assms
  by (auto simp: selected_def Let_def split: option.splits if_splits
           dest: accepted_Some decodable_Some)

lemma Found_selected: "Found L s req \<longleftrightarrow> selected L s req \<noteq> None"
proof -
  let ?fn = "TrimPrefix (Path req) ''/''"
  let ?ae = "Header_Get (Header req) ''Accept-Encoding''"
  have "selected L s req = None \<longleftrightarrow>
        (?ae = [] \<or> accepted (info s) ?fn (ToLower (LowerRunes L) ?ae) (Encodings s) = None) \<and>
        info s ?fn = None \<and> decodable (info s) ?fn (Encodings s) = None"
    by (auto simp: selected_def Let_def split: option.splits)
  then show ?thesis
    by (simp add: Found_def Let_def accepted_None decodable_None)
qed

lemma accepted_find:
  "(case accepted idx fn ae encs of None \<Rightarrow> g | Some (c, i) \<Rightarrow> f c i) =
     (case find (\<lambda>c. Contains ae (ContentEncoding c) \<and> idx (fn @ FileExt c) \<noteq> None) encs of
        None \<Rightarrow> g
      | Some c \<Rightarrow> (case idx (fn @ FileExt c) of None \<Rightarrow> k c | Some i \<Rightarrow> f c i))"
  by (induction encs) (auto split: option.splits)

lemma decodable_find:
  "(case decodable idx fn encs of None \<Rightarrow> g | Some (c, i, d) \<Rightarrow> f c i d) =
     (case find (\<lambda>c. idx (fn @ FileExt c) \<noteq> None \<and> Decoder c \<noteq> None) encs of
        None \<Rightarrow> g
      | Some c \<Rightarrow> (case idx (fn @ FileExt c) of None \<Rightarrow> k c | Some i \<Rightarrow> f c i (the (Decoder c))))"
  by (induction encs) (auto split: option.splits)

text \<open>Unfolding sets for evaluating the handler on the small site.\<close>

lemmas demo_defs =
  get_def head_def demo_server_def upper_server_def locked_server_def flaky_server_def
  demo_index_def demo_fs_def demo_files_def
  demo_lib_def GzipEncoding_def toy_gunzip_def stream_def new_response_def default_OnError_def

lemmas seekable_defs =
  star_lib_def writeNotModified_def seekable_server_def buffered_server_def buffered_gunzip_def

lemmas http_defs =
  Header_Get_def Header_Set_def Header_Del_def WriteHeader_def Write_def Error_def NotFound_def
  status_def

lemmas serve_defs =
  ServeHTTP_def serve_def transfer_def send_def Copy_def set_headers_def set_length_def
  ctype_of_def TrimPrefix_def Ext_def Let_def

lemma ToLower_ascii:
  "list_all (\<lambda>c. (of_char c :: nat) < 128) s \<Longrightarrow> ToLower lower_runes s = map lower_char s"
  by (simp add: ToLower_def)

lemma ascii_examples:
  "list_all (\<lambda>c. (of_char c :: nat) < 128) ''br, GZip''"
  "list_all (\<lambda>c. (of_char c :: nat) < 128) ''GZIP''"
  "list_all (\<lambda>c. (of_char c :: nat) < 128) ''gzip''"
  "list_all (\<lambda>c. (of_char c :: nat) < 128) ''identity''"
  by code_simp+

lemma lower_char_examples:
  "map lower_char ''br, GZip'' = ''br, gzip''"
  "map lower_char ''GZIP'' = ''gzip''"
  "map lower_char ''gzip'' = ''gzip''"
  "map lower_char ''identity'' = ''identity''"
  by code_simp+

lemma ToLower_examples:
  "ToLower lower_runes ''br, GZip'' = ''br, gzip''"
  "ToLower lower_runes ''GZIP'' = ''gzip''"
  "ToLower lower_runes ''gzip'' = ''gzip''"
  "ToLower lower_runes ''identity'' = ''identity''"
  by (simp_all only: ToLower_ascii[OF ascii_examples(1)] ToLower_ascii[OF ascii_examples(2)]
        ToLower_ascii[OF ascii_examples(3)] ToLower_ascii[OF ascii_examples(4)]
        lower_char_examples)

lemma Itoa_examples: "Itoa 6 = ''6''" "Itoa 5 = ''5''" "Itoa 0 = ''0''"
  by (simp_all add: Itoa_def FormatNat.simps digit_char_def)

text \<open>Paths and records of the small trees, evaluated.\<close>

lemma Join_examples:
  "Join ''.'' ''a.txt'' = ''a.txt''"
  "Join ''.'' ''deeper'' = ''deeper''"
  "Join ''deeper'' ''b.bin.gz'' = ''deeper/b.bin.gz''"
  "Clean ''a.txt'' = ''a.txt''"
  "Clean ''deeper/b.bin.gz'' = ''deeper/b.bin.gz''"
  by code_simp+

lemma fileInfo_of_examples:
  "fileInfo_of ''hello'' = \<lparr>hash = ''1vhsp6t4dqdon'', size_bytes = 5\<rparr>"
  "fileInfo_of ''Zdata'' = \<lparr>hash = ''10qtt5z46743h'', size_bytes = 5\<rparr>"
proof -
  have h: "fnv1 offset64 ''hello'' = 8883723591023973575"
    by (simp add: offset64_def prime64_def)
  have u: "unat (8883723591023973575 :: 64 word) = 8883723591023973575"
    by simp
  have f: "FormatNat 36 8883723591023973575 = ''1vhsp6t4dqdon''"
    by (simp add: FormatNat.simps digit_char_def)
  show "fileInfo_of ''hello'' = \<lparr>hash = ''1vhsp6t4dqdon'', size_bytes = 5\<rparr>"
    by (simp only: fileInfo_of_def h u f, simp)
  have h': "fnv1 offset64 ''Zdata'' = 4836468976954431101"
    by (simp add: offset64_def prime64_def)
  have u': "unat (4836468976954431101 :: 64 word) = 4836468976954431101"
    by simp
  have f': "FormatNat 36 4836468976954431101 = ''10qtt5z46743h''"
    by (simp add: FormatNat.simps digit_char_def)
  show "fileInfo_of ''Zdata'' = \<lparr>hash = ''10qtt5z46743h'', size_bytes = 5\<rparr>"
    by (simp only: fileInfo_of_def h' u' f', simp)
qed


lemma Join_demo_files:
  "Join ''.'' ''a.txt.gz'' = ''a.txt.gz''"
  "Join ''.'' ''b.bin.gz'' = ''b.bin.gz''"
  "Join ''.'' ''bad.png.gz'' = ''bad.png.gz''"
  "Join ''.'' ''e.css.gz'' = ''e.css.gz''"
  by code_simp+

lemma fileInfo_of_demo:
  "fileInfo_of ''Zhello'' = \<lparr>hash = ''1tzxhg7i77cmf'', size_bytes = 6\<rparr>"
  "fileInfo_of ''junk'' = \<lparr>hash = ''3g54i76e4wrkb'', size_bytes = 4\<rparr>"
  "fileInfo_of [] = \<lparr>hash = ''33niihzj4ux45'', size_bytes = 0\<rparr>"
proof -
  have h: "fnv1 offset64 ''Zhello'' = 8686777002752645799"
    by (simp add: offset64_def prime64_def)
  have u: "unat (8686777002752645799 :: 64 word) = 8686777002752645799"
    by simp
  have f: "FormatNat 36 8686777002752645799 = ''1tzxhg7i77cmf''"
    by (simp add: FormatNat.simps digit_char_def)
  show "fileInfo_of ''Zhello'' = \<lparr>hash = ''1tzxhg7i77cmf'', size_bytes = 6\<rparr>"
    by (simp only: fileInfo_of_def h u f, simp)
  have h': "fnv1 offset64 ''junk'' = 16339829650911063947"
    by (simp add: offset64_def prime64_def)
  have u': "unat (16339829650911063947 :: 64 word) = 16339829650911063947"
    by simp
  have f': "FormatNat 36 16339829650911063947 = ''3g54i76e4wrkb''"
    by (simp add: FormatNat.simps digit_char_def)
  show "fileInfo_of ''junk'' = \<lparr>hash = ''3g54i76e4wrkb'', size_bytes = 4\<rparr>"
    by (simp only: fileInfo_of_def h' u' f', simp)
  have h'': "fnv1 offset64 [] = 14695981039346656037"
    by (simp add: offset64_def)
  have u'': "unat (14695981039346656037 :: 64 word) = 14695981039346656037"
    by simp
  have f'': "FormatNat 36 14695981039346656037 = ''33niihzj4ux45''"
    by (simp add: FormatNat.simps digit_char_def)
  show "fileInfo_of [] = \<lparr>hash = ''33niihzj4ux45'', size_bytes = 0\<rparr>"
    by (simp only: fileInfo_of_def h'' u'' f'', simp)
qed

text \<open>The paths through \<open>serve\<close>, and the fields each step touches.\<close>

lemma serve_not_modified:
  "Header_Get (Header req) ''If-None-Match'' = h \<Longrightarrow>
   serve L s rw req fn suf enc h cl d = ([], WriteHeader rw 304)"
  by (simp add: serve_def)

lemma serve_open_failed:
  "Header_Get (Header req) ''If-None-Match'' \<noteq> h \<Longrightarrow> Open (fs s) (fn @ suf) = Inl err \<Longrightarrow>
   serve L s rw req fn suf enc h cl d =
     ([FsOpen (fn @ suf)], OnError s (set_headers L rw fn enc h) req err)"
  by (simp add: serve_def Let_def)

lemma serve_opened:
  "Header_Get (Header req) ''If-None-Match'' \<noteq> h \<Longrightarrow> Open (fs s) (fn @ suf) = Inr f \<Longrightarrow>
   serve L s rw req fn suf enc h cl d =
     (if Method req = ''HEAD'' then ([FsOpen (fn @ suf)], set_length (set_headers L rw fn enc h) cl)
      else (FsOpen (fn @ suf) # fst (transfer L s (set_length (set_headers L rw fn enc h) cl) req fn f d),
            snd (transfer L s (set_length (set_headers L rw fn enc h) cl) req fn f d)))"
  by (simp add: serve_def Let_def split: prod.splits)

lemma set_headers_fields:
  "Code (set_headers L rw fn enc h) = Code rw"
  "Body (set_headers L rw fn enc h) = Body rw"
  "HeaderMap (set_headers L rw fn enc h) ''Etag'' = Some h"
  "HeaderMap (set_headers L rw fn enc h) ''Content-Type'' = Some (ctype_of L fn)"
  "HeaderMap (set_headers L rw fn enc h) ''Content-Encoding'' =
     (if enc \<noteq> [] then Some enc else HeaderMap rw ''Content-Encoding'')"
  "HeaderMap (set_headers L rw fn enc h) ''Content-Length'' = HeaderMap rw ''Content-Length''"
  by (simp_all add: set_headers_def Header_Set_def Let_def)

lemma set_length_fields:
  "Code (set_length rw cl) = Code rw"
  "Body (set_length rw cl) = Body rw"
  "HeaderMap (set_length rw cl) ''Etag'' = HeaderMap rw ''Etag''"
  "HeaderMap (set_length rw cl) ''Content-Type'' = HeaderMap rw ''Content-Type''"
  "HeaderMap (set_length rw cl) ''Content-Encoding'' = HeaderMap rw ''Content-Encoding''"
  "HeaderMap (set_length rw cl) ''Content-Length'' =
     (if cl > 0 then Some (Itoa cl) else HeaderMap rw ''Content-Length'')"
  by (simp_all add: set_length_def Header_Set_def)

lemma send_copied:
  "\<not> seeker r \<Longrightarrow> failure r = None \<Longrightarrow>
   send L s rw req fn r = (if content r = [] then rw else Write rw (content r))"
  by (simp add: send_def Copy_def)

lemma send_copy_failed:
  "\<not> seeker r \<Longrightarrow> failure r = Some err \<Longrightarrow>
   send L s rw req fn r = OnError s (if content r = [] then rw else Write rw (content r)) req err"
  by (simp add: send_def Copy_def)


lemma Write_fields:
  "HeaderMap (Write rw bs) = HeaderMap rw"
  "Body (Write rw bs) = Body rw @ bs"
  "status (Write rw bs) = status rw"
  by (simp_all add: Write_def WriteHeader_def status_def Let_def)

lemma copied_fields:
  "HeaderMap (if bs = [] then rw else Write rw bs) = HeaderMap rw"
  "Body (if bs = [] then rw else Write rw bs) = Body rw @ bs"
  "status (if bs = [] then rw else Write rw bs) = status rw"
  by (simp_all add: Write_fields)

text \<open>The walk of \<open>hashDir\<close> over a file tree.\<close>

lemma store_Nil [simp]: "store [] idx = idx"
  by (simp add: store_def)

lemma store_Cons [simp]:
  "store ((fn, bs) # xs) idx = store xs (idx(Clean fn \<mapsto> fileInfo_of bs))"
  by (simp add: store_def)

lemma store_append: "store (xs @ ys) idx = store ys (store xs idx)"
  by (simp add: store_def)

lemma store_single: "store [(fn, bs)] idx = idx(Clean fn \<mapsto> fileInfo_of bs)"
  by (simp add: store_def)

lemma walk_correct:
  "(realizes fsys p t \<longrightarrow> is_dir t \<longrightarrow>
      (\<forall>fuel idx. depth t \<le> fuel \<longrightarrow>
         (readable t \<longrightarrow> hashDir fuel fsys idx p = Some (Inr (store (files_of p t) idx))) \<and>
         (\<not> readable t \<longrightarrow> (\<exists>err. hashDir fuel fsys idx p = Some (Inl err)))))"
  "(realizes_in fsys p es \<longrightarrow>
      (\<forall>n idx. depth_in es \<le> n \<longrightarrow>
         (readable_in es \<longrightarrow>
            hashFiles (hashDir n fsys) fsys idx p (map entry_of es) =
              Some (Inr (store (files_in p es) idx))) \<and>
         (\<not> readable_in es \<longrightarrow>
            (\<exists>err. hashFiles (hashDir n fsys) fsys idx p (map entry_of es) = Some (Inl err)))))"
proof (induction p t and p es rule: files_of_files_in.induct)
  case (1 p r)
  show ?case by simp
next
  case (2 p e)
  show ?case by simp
next
  case (3 p e)
  show ?case
  proof (intro impI allI)
    fix fuel :: nat and idx
    assume "realizes fsys p (NoDir e)" and "depth (NoDir e) \<le> fuel"
    then obtain n where "fuel = Suc n" and "ReadDir fsys p = Inl e"
      by (cases fuel) auto
    then show "(readable (NoDir e) \<longrightarrow>
                  hashDir fuel fsys idx p = Some (Inr (store (files_of p (NoDir e)) idx))) \<and>
               (\<not> readable (NoDir e) \<longrightarrow> (\<exists>err. hashDir fuel fsys idx p = Some (Inl err)))"
      by simp
  qed
next
  case (4 p es)
  show ?case
  proof (intro impI allI)
    fix fuel :: nat and idx
    assume r: "realizes fsys p (Dir es)" and d: "depth (Dir es) \<le> fuel"
    then obtain n where n: "fuel = Suc n" "depth_in es \<le> n"
      by (cases fuel) auto
    from r have l: "ReadDir fsys p = Inr (map entry_of es)" and ri: "realizes_in fsys p es"
      by simp_all
    from 4 ri n(2) have
      "(readable_in es \<longrightarrow>
          hashFiles (hashDir n fsys) fsys idx p (map entry_of es) =
            Some (Inr (store (files_in p es) idx))) \<and>
       (\<not> readable_in es \<longrightarrow>
          (\<exists>err. hashFiles (hashDir n fsys) fsys idx p (map entry_of es) = Some (Inl err)))"
      by blast
    with n(1) l show "(readable (Dir es) \<longrightarrow>
                  hashDir fuel fsys idx p = Some (Inr (store (files_of p (Dir es)) idx))) \<and>
               (\<not> readable (Dir es) \<longrightarrow> (\<exists>err. hashDir fuel fsys idx p = Some (Inl err)))"
      by simp
  qed
next
  case (5 p)
  show ?case by simp
next
  case (6 p e es)
  show ?case
  proof (intro impI allI)
    fix n :: nat and idx
    assume r: "realizes_in fsys p (e # es)" and d: "depth_in (e # es) \<le> n"
    let ?fn = "Join p (fst e)"
    from r have re: "realizes fsys ?fn (snd e)" and rs: "realizes_in fsys p es" by simp_all
    from d have de: "depth (snd e) \<le> n" and ds: "depth_in es \<le> n" by simp_all
    note rest = 6(2)[rule_format, OF rs ds]
    show "(readable_in (e # es) \<longrightarrow>
             hashFiles (hashDir n fsys) fsys idx p (map entry_of (e # es)) =
               Some (Inr (store (files_in p (e # es)) idx))) \<and>
          (\<not> readable_in (e # es) \<longrightarrow>
             (\<exists>err. hashFiles (hashDir n fsys) fsys idx p (map entry_of (e # es)) = Some (Inl err)))"
    proof (cases "snd e")
      case (File rd)
      with re have o: "Open fsys ?fn = Inr rd" by simp
      show ?thesis
      proof (cases "failure rd")
        case None
        with File o rest[of "idx(Clean ?fn \<mapsto> fileInfo_of (content rd))"] show ?thesis
          by (simp add: entry_of_def Let_def store_append store_single)
      next
        case (Some err)
        with File o show ?thesis by (simp add: entry_of_def Let_def)
      qed
    next
      case (NoFile err)
      with re show ?thesis by (simp add: entry_of_def Let_def)
    next
      case (Dir sub)
      note here = 6(1)[rule_format, OF re _ de, unfolded Dir, simplified]
      show ?thesis
      proof (cases "readable_in sub")
        case True
        with here[of idx] have "hashDir n fsys idx ?fn = Some (Inr (store (files_in ?fn sub) idx))"
          by simp
        with Dir True rest[of "store (files_in ?fn sub) idx"] show ?thesis
          by (simp add: entry_of_def Let_def store_append)
      next
        case False
        with here[of idx] obtain err where "hashDir n fsys idx ?fn = Some (Inl err)" by auto
        with Dir False show ?thesis by (simp add: entry_of_def Let_def)
      qed
    next
      case (NoDir err)
      note here = 6(1)[rule_format, OF re _ de, unfolded NoDir, simplified]
      from here[of idx] obtain err' where "hashDir n fsys idx ?fn = Some (Inl err')" by auto
      with NoDir show ?thesis by (simp add: entry_of_def Let_def)
    qed
  qed
qed

lemma dom_store: "dom (store xs idx) = dom idx \<union> (\<lambda>(fn, bs). Clean fn) ` set xs"
proof (induction xs arbitrary: idx)
  case Nil
  show ?case by simp
next
  case (Cons x xs)
  obtain fn bs where x: "x = (fn, bs)" by (cases x)
  have step: "store (x # xs) idx = store xs (idx(Clean fn \<mapsto> fileInfo_of bs))"
    using x by simp
  have "dom (store (x # xs) idx) =
          dom (idx(Clean fn \<mapsto> fileInfo_of bs)) \<union> (\<lambda>(fn, bs). Clean fn) ` set xs"
    by (simp only: step Cons.IH)
  also have "\<dots> = insert (Clean fn) (dom idx) \<union> (\<lambda>(fn, bs). Clean fn) ` set xs"
    by simp
  also have "\<dots> = dom idx \<union> (\<lambda>(fn, bs). Clean fn) ` set (x # xs)"
    using x by simp
  finally show ?case .
qed

lemma store_absent: "k \<notin> (\<lambda>(fn, bs). Clean fn) ` set xs \<Longrightarrow> store xs idx k = idx k"
proof (induction xs arbitrary: idx)
  case Nil
  show ?case by simp
next
  case (Cons x xs)
  obtain fn bs where x: "x = (fn, bs)" by (cases x)
  from Cons.prems x have ne: "k \<noteq> Clean fn" and notin: "k \<notin> (\<lambda>(fn, bs). Clean fn) ` set xs"
    by auto
  have "store (x # xs) idx k = store xs (idx(Clean fn \<mapsto> fileInfo_of bs)) k"
    using x by simp
  also have "\<dots> = (idx(Clean fn \<mapsto> fileInfo_of bs)) k"
    by (rule Cons.IH[OF notin])
  also have "\<dots> = idx k"
    using ne by simp
  finally show ?case .
qed

lemma store_distinct:
  "distinct (map (\<lambda>(fn, bs). Clean fn) xs) \<Longrightarrow> (fn, bs) \<in> set xs \<Longrightarrow>
   store xs idx (Clean fn) = Some (fileInfo_of bs)"
proof (induction xs arbitrary: idx)
  case Nil
  then show ?case by simp
next
  case (Cons x xs)
  obtain fn' bs' where x: "x = (fn', bs')" by (cases x)
  show ?case
  proof (cases "(fn, bs) = x")
    case True
    with Cons.prems(1) x have notin: "Clean fn \<notin> (\<lambda>(fn, bs). Clean fn) ` set xs" by auto
    have "store (x # xs) idx (Clean fn) = store xs (idx(Clean fn \<mapsto> fileInfo_of bs)) (Clean fn)"
      using True x by simp
    also have "\<dots> = (idx(Clean fn \<mapsto> fileInfo_of bs)) (Clean fn)"
      by (rule store_absent[OF notin])
    also have "\<dots> = Some (fileInfo_of bs)" by simp
    finally show ?thesis .
  next
    case False
    with Cons.prems(2) have mem: "(fn, bs) \<in> set xs" by simp
    from Cons.prems(1) have dist: "distinct (map (\<lambda>(fn, bs). Clean fn) xs)" by simp
    have "store (x # xs) idx (Clean fn) = store xs (idx(Clean fn' \<mapsto> fileInfo_of bs')) (Clean fn)"
      using x by simp
    also have "\<dots> = Some (fileInfo_of bs)"
      by (rule Cons.IH[OF dist mem])
    finally show ?thesis .
  qed
qed

lemma options_keep:
  "\<forall>opt\<in>set options. \<forall>s. info (opt s) = info s \<and> fs (opt s) = fs s \<Longrightarrow>
   info (fold (\<lambda>opt s. opt s) options start) = info start \<and> fs (fold (\<lambda>opt s. opt s) options start) = fs start"
proof (induction options arbitrary: start)
  case Nil
  show ?case by simp
next
  case (Cons opt options)
  from Cons.prems have keep: "info (opt start) = info start" "fs (opt start) = fs start"
    by (meson list.set_intros(1))+
  from Cons.prems have rest: "\<forall>opt\<in>set options. \<forall>s. info (opt s) = info s \<and> fs (opt s) = fs s"
    by (meson list.set_intros(2))
  from Cons.IH[OF rest, of "opt start"] keep show ?case by simp
qed

text \<open>The server of the small site is the one \<open>FileServer\<close> builds from its files.\<close>

lemma demo_built:
  "FileServer 1 toy_gunzip demo_fs [] = Some (Inr demo_server)"
proof -
  have real: "realizes demo_fs ''.'' (Dir demo_entries)"
    by (simp add: demo_entries_def demo_files_def demo_fs_def entry_of_def stream_def
          Join_examples Join_demo_files)
  have rd: "readable (Dir demo_entries)"
    by (simp add: demo_entries_def demo_files_def stream_def)
  have dp: "depth (Dir demo_entries) \<le> 1"
    by (simp add: demo_entries_def demo_files_def)
  have fl: "files_of ''.'' (Dir demo_entries) = demo_files"
    by (simp add: demo_entries_def demo_files_def stream_def Join_examples Join_demo_files)
  have opts: "\<forall>opt\<in>set []. \<forall>s. info (opt s) = info s \<and> fs (opt s) = fs s"
    by simp
  have w: "hashDir 1 demo_fs Map.empty ''.'' = Some (Inr (store demo_files Map.empty))"
    using walk_correct(1)[of demo_fs "''.''" "Dir demo_entries", rule_format, OF real _ dp, of Map.empty]
          rd fl by simp
  have c: "Clean ''a.txt.gz'' = ''a.txt.gz''" "Clean ''b.bin.gz'' = ''b.bin.gz''"
          "Clean ''bad.png.gz'' = ''bad.png.gz''" "Clean ''e.css.gz'' = ''e.css.gz''"
    by code_simp+
  have idx: "store demo_files Map.empty = demo_index"
    by (rule ext)
       (simp add: demo_files_def demo_index_def store_def c Join_examples
          fileInfo_of_examples fileInfo_of_demo)
  show ?thesis
    by (simp add: FileServer_def w idx demo_server_def del: hashDir.simps One_nat_def)
qed

subsection \<open>C1: the three resolutions, in order\<close>

text \<open>
  C1, as amended. For every GET or HEAD request the handler is the specification's
  negotiator: (1) if Accept-Encoding is non-empty, the first codec in registration order
  whose wire name, as registered, is a substring of the lower-cased header and whose
  path+suffix key is in the index is served verbatim with that wire name as
  Content-Encoding; (2) otherwise the bare path, if indexed, with no Content-Encoding;
  (3) otherwise the first codec whose path+suffix key is indexed and whose decoder is
  non-nil, through decompression; otherwise 404. The match is case-insensitive exactly
  when the registered wire name is lower-case: only the header is lowered.
\<close>

theorem ServeHTTP_three_steps:
  assumes "Method req = ''GET'' \<or> Method req = ''HEAD''"
  shows "ServeHTTP L s rw req = spec_resolution (appears_lowered L) L s rw req"
proof -
  let ?p = "TrimPrefix (Path req) ''/''"
  let ?ae = "Header_Get (Header req) ''Accept-Encoding''"
  have third:
    "(case decodable (info s) ?p (Encodings s) of
        None \<Rightarrow> ([], NotFound rw req)
      | Some (enc, i, d) \<Rightarrow> serve L s rw req ?p (FileExt enc) [] (hash i @ ''U'') 0 (Some d)) =
     (case find (\<lambda>c. info s (?p @ FileExt c) \<noteq> None \<and> Decoder c \<noteq> None) (Encodings s) of
        None \<Rightarrow> ([], NotFound rw req)
      | Some c \<Rightarrow>
          (case info s (?p @ FileExt c) of
             None \<Rightarrow> ([], NotFound rw req)
           | Some i \<Rightarrow> serve L s rw req ?p (FileExt c) [] (hash i @ ''U'') 0 (Decoder c)))"
    (is "?lhs = ?rhs")
  proof -
    have "?lhs =
      (case find (\<lambda>c. info s (?p @ FileExt c) \<noteq> None \<and> Decoder c \<noteq> None) (Encodings s) of
        None \<Rightarrow> ([], NotFound rw req)
      | Some c \<Rightarrow>
          (case info s (?p @ FileExt c) of
             None \<Rightarrow> ([], NotFound rw req)
           | Some i \<Rightarrow> serve L s rw req ?p (FileExt c) [] (hash i @ ''U'') 0 (Some (the (Decoder c)))))"
      by (rule decodable_find)
    also have "\<dots> = ?rhs"
      by (auto split: option.splits dest!: find_Some_iff[THEN iffD1])
    finally show ?thesis .
  qed
  from assms have m: "\<not> (Method req \<noteq> ''GET'' \<and> Method req \<noteq> ''HEAD'')" by auto
  show ?thesis
  proof (cases "?ae = []")
    case True
    show ?thesis
      unfolding ServeHTTP_def spec_resolution_def Let_def using m True
      by (simp only: if_False if_True third not_False_eq_True refl simp_thms option.case)
  next
    case False
    have first: "\<And>g. (case accepted (info s) ?p (ToLower (LowerRunes L) ?ae) (Encodings s) of
             None \<Rightarrow> g
           | Some (enc, i) \<Rightarrow>
               serve L s rw req ?p (FileExt enc) (ContentEncoding enc) (hash i) (size_bytes i) None) =
          (case find (\<lambda>c. appears_lowered L (ContentEncoding c) ?ae \<and> info s (?p @ FileExt c) \<noteq> None)
                  (Encodings s) of
             None \<Rightarrow> g
           | Some c \<Rightarrow>
               (case info s (?p @ FileExt c) of
                  None \<Rightarrow> ([], NotFound rw req)
                | Some i \<Rightarrow>
                    serve L s rw req ?p (FileExt c) (ContentEncoding c) (hash i) (size_bytes i) None))"
      unfolding appears_lowered_def by (rule accepted_find)
    show ?thesis
      unfolding ServeHTTP_def spec_resolution_def Let_def using m False
      by (simp only: if_False if_True third first not_False_eq_True refl simp_thms)
  qed
qed

text \<open>
  The theorem at a request for \<open>/a.txt\<close> with the header \<open>br, GZip\<close>: the sidecar is
  served verbatim with Content-Encoding \<open>gzip\<close>.
\<close>

theorem ServeHTTP_three_steps_witness:
  "Method (get ''/a.txt'' [(''Accept-Encoding'', ''br, GZip'')]) = ''GET'' \<and>
   ServeHTTP demo_lib demo_server new_response (get ''/a.txt'' [(''Accept-Encoding'', ''br, GZip'')]) =
     spec_resolution (appears_lowered demo_lib) demo_lib demo_server new_response
       (get ''/a.txt'' [(''Accept-Encoding'', ''br, GZip'')]) \<and>
   Body (snd (ServeHTTP demo_lib demo_server new_response
                (get ''/a.txt'' [(''Accept-Encoding'', ''br, GZip'')]))) = ''Zhello'' \<and>
   HeaderMap (snd (ServeHTTP demo_lib demo_server new_response
                (get ''/a.txt'' [(''Accept-Encoding'', ''br, GZip'')]))) ''Content-Encoding'' = Some ''gzip''"
proof -
  have m: "Method (get ''/a.txt'' [(''Accept-Encoding'', ''br, GZip'')]) = ''GET''"
    by (simp add: get_def)
  have b: "Body (snd (ServeHTTP demo_lib demo_server new_response
                (get ''/a.txt'' [(''Accept-Encoding'', ''br, GZip'')]))) = ''Zhello''"
    by (simp add: ToLower_examples demo_defs http_defs serve_defs)
  have c: "HeaderMap (snd (ServeHTTP demo_lib demo_server new_response
                (get ''/a.txt'' [(''Accept-Encoding'', ''br, GZip'')]))) ''Content-Encoding'' = Some ''gzip''"
    by (simp add: ToLower_examples demo_defs http_defs serve_defs)
  from m have "Method (get ''/a.txt'' [(''Accept-Encoding'', ''br, GZip'')]) = ''GET'' \<or>
               Method (get ''/a.txt'' [(''Accept-Encoding'', ''br, GZip'')]) = ''HEAD''" ..
  note r = ServeHTTP_three_steps[OF this, of demo_lib demo_server new_response]
  show ?thesis by (intro conjI m r b c)
qed

text \<open>
  C1 as stated fails where a codec is registered under an upper-case wire name. With
  \<open>GZIP\<close> registered and \<open>Accept-Encoding: GZIP\<close>, the wire name appears in the header
  (even exactly), so the claim selects the sidecar with Content-Encoding \<open>GZIP\<close>; the
  handler looks for \<open>GZIP\<close> in \<open>gzip\<close>, finds nothing and serves the raw file.
\<close>

theorem ServeHTTP_nocase_counterexample:
  "Method (get ''/a.txt'' [(''Accept-Encoding'', ''GZIP'')]) = ''GET'' \<and>
   Body (snd (ServeHTTP demo_lib upper_server new_response
                (get ''/a.txt'' [(''Accept-Encoding'', ''GZIP'')]))) = ''hello'' \<and>
   HeaderMap (snd (ServeHTTP demo_lib upper_server new_response
                (get ''/a.txt'' [(''Accept-Encoding'', ''GZIP'')]))) ''Content-Encoding'' = None \<and>
   Body (snd (spec_resolution (appears_nocase demo_lib) demo_lib upper_server new_response
                (get ''/a.txt'' [(''Accept-Encoding'', ''GZIP'')]))) = ''Zhello'' \<and>
   HeaderMap (snd (spec_resolution (appears_nocase demo_lib) demo_lib upper_server new_response
                (get ''/a.txt'' [(''Accept-Encoding'', ''GZIP'')]))) ''Content-Encoding'' = Some ''GZIP'' \<and>
   ServeHTTP demo_lib upper_server new_response (get ''/a.txt'' [(''Accept-Encoding'', ''GZIP'')]) \<noteq>
   spec_resolution (appears_nocase demo_lib) demo_lib upper_server new_response
     (get ''/a.txt'' [(''Accept-Encoding'', ''GZIP'')])"
proof -
  have b1: "Body (snd (ServeHTTP demo_lib upper_server new_response
                (get ''/a.txt'' [(''Accept-Encoding'', ''GZIP'')]))) = ''hello''"
    by (simp add: ToLower_examples demo_defs http_defs serve_defs)
  have b2: "Body (snd (spec_resolution (appears_nocase demo_lib) demo_lib upper_server new_response
                (get ''/a.txt'' [(''Accept-Encoding'', ''GZIP'')]))) = ''Zhello''"
    by (simp add: ToLower_examples demo_defs http_defs serve_defs spec_resolution_def appears_nocase_def)
  have c1: "HeaderMap (snd (ServeHTTP demo_lib upper_server new_response
                (get ''/a.txt'' [(''Accept-Encoding'', ''GZIP'')]))) ''Content-Encoding'' = None"
    by (simp add: ToLower_examples demo_defs http_defs serve_defs)
  have c2: "HeaderMap (snd (spec_resolution (appears_nocase demo_lib) demo_lib upper_server new_response
                (get ''/a.txt'' [(''Accept-Encoding'', ''GZIP'')]))) ''Content-Encoding'' = Some ''GZIP''"
    by (simp add: ToLower_examples demo_defs http_defs serve_defs spec_resolution_def appears_nocase_def)
  have m: "Method (get ''/a.txt'' [(''Accept-Encoding'', ''GZIP'')]) = ''GET''"
    by (simp add: get_def)
  from b1 b2 have ne: "ServeHTTP demo_lib upper_server new_response (get ''/a.txt'' [(''Accept-Encoding'', ''GZIP'')]) \<noteq>
   spec_resolution (appears_nocase demo_lib) demo_lib upper_server new_response
     (get ''/a.txt'' [(''Accept-Encoding'', ''GZIP'')])"
    by auto
  show ?thesis by (intro conjI m b1 c1 b2 c2 ne)
qed

subsection \<open>C2: no Vary header\<close>

text \<open>
  C2 asks for \<open>Vary: Accept-Encoding\<close> on every response served from a sidecar with a
  Content-Encoding header. The handler never sets it: a GET for \<open>/a.txt\<close> accepting
  gzip is resolved by step 1, answered 200 with Content-Encoding \<open>gzip\<close> and the
  sidecar's bytes, and has no Vary header. (The repository's own test
  \<open>TestServer_ServeHTTP_get_gz\<close> expects the header.)
\<close>

theorem compressed_response_lacks_Vary:
  "selected demo_lib demo_server (get ''/a.txt'' [(''Accept-Encoding'', ''gzip'')]) =
     Some (''a.txt'', ''.gz'', ''gzip'', ''1tzxhg7i77cmf'', 6, None) \<and>
   status (snd (ServeHTTP demo_lib demo_server new_response
                  (get ''/a.txt'' [(''Accept-Encoding'', ''gzip'')]))) = 200 \<and>
   Body (snd (ServeHTTP demo_lib demo_server new_response
                  (get ''/a.txt'' [(''Accept-Encoding'', ''gzip'')]))) = ''Zhello'' \<and>
   HeaderMap (snd (ServeHTTP demo_lib demo_server new_response
                  (get ''/a.txt'' [(''Accept-Encoding'', ''gzip'')]))) ''Content-Encoding'' = Some ''gzip'' \<and>
   HeaderMap (snd (ServeHTTP demo_lib demo_server new_response
                  (get ''/a.txt'' [(''Accept-Encoding'', ''gzip'')]))) ''Vary'' = None"
  by (simp add: ToLower_examples demo_defs http_defs serve_defs selected_def)

subsection \<open>C3: the existence predicate\<close>

text \<open>
  C3. For every request, \<open>Found\<close> holds exactly when the negotiator resolves the
  request path to a stored representation; for a GET or HEAD request \<open>ServeHTTP\<close> is
  then the \<open>serve\<close> call for that representation, and otherwise it is \<open>http.NotFound\<close>
  (status 404 on a response not yet started). \<open>Found\<close> is a function of
  the server and the request to a truth value, so it opens no file and changes neither
  the request nor a response.
\<close>

theorem Found_iff_resolves:
  "(Found L s req \<longleftrightarrow> selected L s req \<noteq> None)
   \<and> (Method req = ''GET'' \<or> Method req = ''HEAD'' \<longrightarrow>
        (Found L s req \<longrightarrow>
           (\<exists>fn suf enc h cl d. selected L s req = Some (fn, suf, enc, h, cl, d) \<and>
              ServeHTTP L s rw req = serve L s rw req fn suf enc h cl d))
      \<and> (\<not> Found L s req \<longrightarrow>
           ServeHTTP L s rw req = ([], NotFound rw req) \<and>
           (Code rw = None \<longrightarrow> Code (snd (ServeHTTP L s rw req)) = Some 404)))"
proof (intro conjI impI)
  show "Found L s req \<longleftrightarrow> selected L s req \<noteq> None"
    by (rule Found_selected)
next
  assume m: "Method req = ''GET'' \<or> Method req = ''HEAD''" and "Found L s req"
  then obtain a where a: "selected L s req = Some a"
    by (auto simp: Found_selected)
  obtain fn suf enc h cl d where "a = (fn, suf, enc, h, cl, d)"
    by (cases a) auto
  with a m have "selected L s req = Some (fn, suf, enc, h, cl, d) \<and>
                 ServeHTTP L s rw req = serve L s rw req fn suf enc h cl d"
    by (simp add: ServeHTTP_selected)
  then show "\<exists>fn suf enc h cl d. selected L s req = Some (fn, suf, enc, h, cl, d) \<and>
               ServeHTTP L s rw req = serve L s rw req fn suf enc h cl d"
    by blast
next
  assume m: "Method req = ''GET'' \<or> Method req = ''HEAD''" and "\<not> Found L s req"
  then have none: "selected L s req = None"
    unfolding Found_selected by blast
  with m show gone: "ServeHTTP L s rw req = ([], NotFound rw req)"
    by (simp add: ServeHTTP_selected)
  assume "Code rw = None"
  then show "Code (snd (ServeHTTP L s rw req)) = Some 404"
    by (simp add: gone NotFound_def Error_def Write_def WriteHeader_def Header_Set_def Let_def)
qed

text \<open>The theorem at an asset stored only compressed, and at an unknown path.\<close>

theorem Found_iff_resolves_witness:
  "Found demo_lib demo_server (get ''/b.bin'' []) \<and>
   selected demo_lib demo_server (get ''/b.bin'' []) = Some (''b.bin'', ''.gz'', [], ''10qtt5z46743hU'', 0, Some toy_gunzip) \<and>
   \<not> Found demo_lib demo_server (get ''/nonexistent'' []) \<and>
   ServeHTTP demo_lib demo_server new_response (get ''/nonexistent'' []) =
     ([], NotFound new_response (get ''/nonexistent'' [])) \<and>
   Code (snd (ServeHTTP demo_lib demo_server new_response (get ''/nonexistent'' []))) = Some 404"
proof -
  have m: "\<And>p. Method (get p []) = ''GET'' \<or> Method (get p []) = ''HEAD''"
    by (simp add: get_def)
  have f1: "Found demo_lib demo_server (get ''/b.bin'' [])"
    by (simp add: Found_def get_def demo_server_def demo_index_def Header_Get_def TrimPrefix_def GzipEncoding_def)
  have f2: "\<not> Found demo_lib demo_server (get ''/nonexistent'' [])"
    by (simp add: Found_def get_def demo_server_def demo_index_def Header_Get_def TrimPrefix_def GzipEncoding_def)
  have c: "Code new_response = None" by (simp add: new_response_def)
  have s1: "selected demo_lib demo_server (get ''/b.bin'' []) = Some (''b.bin'', ''.gz'', [], ''10qtt5z46743hU'', 0, Some toy_gunzip)"
    by (simp add: selected_def get_def demo_server_def demo_index_def Header_Get_def TrimPrefix_def GzipEncoding_def)
  note r = Found_iff_resolves[where L = demo_lib and s = demo_server
             and req = "get ''/nonexistent'' []" and rw = new_response]
  note a = r[THEN conjunct2, THEN mp, OF m, THEN conjunct2, THEN mp, OF f2]
  note r1 = a[THEN conjunct1]
  note r2 = a[THEN conjunct2, THEN mp, OF c]
  show ?thesis by (intro conjI f1 s1 f2 r1 r2)
qed

subsection \<open>C4: the validator of the decompressed variant\<close>

text \<open>
  C4. When one request is resolved to a sidecar through the decompress fallback and
  another to the same stored file verbatim, the first is served with the sidecar's hash
  followed by the marker \<open>U\<close> as validator, the second with the bare hash, and the two
  validators differ.
\<close>

theorem validators_differ:
  assumes "Method r1 = ''GET'' \<or> Method r1 = ''HEAD''"
      and "Method r2 = ''GET'' \<or> Method r2 = ''HEAD''"
      and "selected L s r1 = Some (fn1, suf1, e1, h1, c1, Some d)"
      and "selected L s r2 = Some (fn2, suf2, e2, h2, c2, None)"
      and "fn1 @ suf1 = fn2 @ suf2"
  shows "\<exists>i. info s (fn1 @ suf1) = Some i \<and>
             ServeHTTP L s rw r1 = serve L s rw r1 fn1 suf1 [] (hash i @ ''U'') 0 (Some d) \<and>
             ServeHTTP L s rw r2 = serve L s rw r2 fn2 suf2 e2 (hash i) (size_bytes i) None \<and>
             hash i @ ''U'' \<noteq> hash i"
proof -
  from selected_cases[OF assms(3)] obtain i where
    i: "info s (fn1 @ suf1) = Some i" "h1 = hash i @ ''U''" "c1 = 0" "e1 = []" by auto
  from selected_cases[OF assms(4)] assms(5) i(1) have
    j: "h2 = hash i" "c2 = size_bytes i" by auto
  have "ServeHTTP L s rw r1 = serve L s rw r1 fn1 suf1 [] (hash i @ ''U'') 0 (Some d)"
    using assms(1,3) i by (simp add: ServeHTTP_selected)
  moreover have "ServeHTTP L s rw r2 = serve L s rw r2 fn2 suf2 e2 (hash i) (size_bytes i) None"
    using assms(2,4) j by (simp add: ServeHTTP_selected)
  ultimately show ?thesis using i(1) by simp
qed

text \<open>
  The theorem at \<open>/b.bin\<close>, stored only as \<open>b.bin.gz\<close>: without Accept-Encoding the
  ETag is the hash with \<open>U\<close> appended, with \<open>Accept-Encoding: gzip\<close> it is the hash.
\<close>

theorem validators_differ_witness:
  "selected demo_lib demo_server (get ''/b.bin'' []) =
     Some (''b.bin'', ''.gz'', [], ''10qtt5z46743hU'', 0, Some toy_gunzip) \<and>
   selected demo_lib demo_server (get ''/b.bin'' [(''Accept-Encoding'', ''gzip'')]) =
     Some (''b.bin'', ''.gz'', ''gzip'', ''10qtt5z46743h'', 5, None) \<and>
   (\<exists>i. info demo_server (''b.bin'' @ ''.gz'') = Some i \<and>
        ServeHTTP demo_lib demo_server new_response (get ''/b.bin'' []) =
          serve demo_lib demo_server new_response (get ''/b.bin'' []) ''b.bin'' ''.gz'' []
            (hash i @ ''U'') 0 (Some toy_gunzip) \<and>
        ServeHTTP demo_lib demo_server new_response (get ''/b.bin'' [(''Accept-Encoding'', ''gzip'')]) =
          serve demo_lib demo_server new_response (get ''/b.bin'' [(''Accept-Encoding'', ''gzip'')])
            ''b.bin'' ''.gz'' ''gzip'' (hash i) (size_bytes i) None \<and>
        hash i @ ''U'' \<noteq> hash i) \<and>
   HeaderMap (snd (ServeHTTP demo_lib demo_server new_response (get ''/b.bin'' []))) ''Etag'' = Some ''10qtt5z46743hU'' \<and>
   HeaderMap (snd (ServeHTTP demo_lib demo_server new_response
                     (get ''/b.bin'' [(''Accept-Encoding'', ''gzip'')]))) ''Etag'' = Some ''10qtt5z46743h''"
proof -
  have m: "\<And>p hs. Method (get p hs) = ''GET'' \<or> Method (get p hs) = ''HEAD''"
    by (simp add: get_def)
  have s1: "selected demo_lib demo_server (get ''/b.bin'' []) =
     Some (''b.bin'', ''.gz'', [], ''10qtt5z46743hU'', 0, Some toy_gunzip)"
    by (simp add: selected_def demo_defs http_defs TrimPrefix_def)
  have s2: "selected demo_lib demo_server (get ''/b.bin'' [(''Accept-Encoding'', ''gzip'')]) =
     Some (''b.bin'', ''.gz'', ''gzip'', ''10qtt5z46743h'', 5, None)"
    by (simp add: selected_def demo_defs http_defs TrimPrefix_def ToLower_examples)
  have e1: "HeaderMap (snd (ServeHTTP demo_lib demo_server new_response (get ''/b.bin'' []))) ''Etag'' = Some ''10qtt5z46743hU''"
    by (simp add: ToLower_examples demo_defs http_defs serve_defs)
  have e2: "HeaderMap (snd (ServeHTTP demo_lib demo_server new_response
                     (get ''/b.bin'' [(''Accept-Encoding'', ''gzip'')]))) ''Etag'' = Some ''10qtt5z46743h''"
    by (simp add: ToLower_examples demo_defs http_defs serve_defs)
  note r = validators_differ[OF m m s1 s2 refl, where rw = new_response]
  show ?thesis by (intro conjI s1 s2 r e1 e2)
qed

subsection \<open>C5: the round trip of the decompress fallback\<close>

text \<open>
  C5, as amended. Let only the sidecar of one codec be stored for a path (no raw file),
  its file opening to bytes that are the codec's encoding of some data, and let the
  codec's decoder be a left inverse of its encoder: a stream that carries the encoding
  of any data decodes, without error, to a forward-only stream of that data. Let a GET
  request for the path not accept that codec and not carry the fallback's validator in
  If-None-Match. Then the response body is the data, re-compressing it gives the stored
  artifact byte for byte, the response has no Content-Encoding header, its ETag is the
  marked hash, and the file was opened once and the decoder invoked once.
\<close>

theorem fallback_round_trip:
  assumes "Method req = ''GET''"
      and "info s (TrimPrefix (Path req) ''/'') = None"
      and "enc \<in> set (Encodings s)"
      and "info s (TrimPrefix (Path req) ''/'' @ FileExt enc) = Some i"
      and "\<forall>c\<in>set (Encodings s). info s (TrimPrefix (Path req) ''/'' @ FileExt c) \<noteq> None \<longrightarrow> c = enc"
      and "Header_Get (Header req) ''Accept-Encoding'' = [] \<or>
           \<not> Contains (ToLower (LowerRunes L) (Header_Get (Header req) ''Accept-Encoding''))
                (ContentEncoding enc)"
      and "Decoder enc = Some dec"
      and "\<forall>g y. content g = encode y \<longrightarrow>
             (\<exists>r. dec g = Inr r \<and> content r = y \<and> failure r = None \<and> \<not> seeker r)"
      and "Header_Get (Header req) ''If-None-Match'' \<noteq> hash i @ ''U''"
      and "Open (fs s) (TrimPrefix (Path req) ''/'' @ FileExt enc) = Inr f"
      and "content f = encode x"
      and "Body rw = []" and "HeaderMap rw ''Content-Encoding'' = None"
  shows "Body (snd (ServeHTTP L s rw req)) = x \<and>
         encode (Body (snd (ServeHTTP L s rw req))) = content f \<and>
         HeaderMap (snd (ServeHTTP L s rw req)) ''Content-Encoding'' = None \<and>
         HeaderMap (snd (ServeHTTP L s rw req)) ''Etag'' = Some (hash i @ ''U'') \<and>
         fst (ServeHTTP L s rw req) = [FsOpen (TrimPrefix (Path req) ''/'' @ FileExt enc), Decompress]"
proof -
  let ?p = "TrimPrefix (Path req) ''/''"
  let ?ae = "Header_Get (Header req) ''Accept-Encoding''"
  let ?rw3 = "set_length (set_headers L rw ?p [] (hash i @ ''U'')) 0"
  have no1: "?ae \<noteq> [] \<Longrightarrow> accepted (info s) ?p (ToLower (LowerRunes L) ?ae) (Encodings s) = None"
  proof (rule accepted_only, rule ballI, rule impI)
    fix c
    assume ne: "?ae \<noteq> []" and c: "c \<in> set (Encodings s)" and st: "info s (?p @ FileExt c) \<noteq> None"
    from assms(5) c st have "c = enc" by blast
    with assms(6) ne show "\<not> Contains (ToLower (LowerRunes L) ?ae) (ContentEncoding c)" by simp
  qed
  have d3: "decodable (info s) ?p (Encodings s) = Some (enc, i, dec)"
    by (rule decodable_only[OF assms(3,4,7,5)])
  have sel: "selected L s req = Some (?p, FileExt enc, [], hash i @ ''U'', 0, Some dec)"
    using no1 d3 assms(2) by (simp add: selected_def Let_def)
  have m: "Method req = ''GET'' \<or> Method req = ''HEAD''" using assms(1) by simp
  from assms(8)[THEN spec, THEN spec, THEN mp, OF assms(11)]
  obtain r where r: "dec f = Inr r" "content r = x" "failure r = None" "\<not> seeker r"
    by blast
  have "ServeHTTP L s rw req =
          ([FsOpen (?p @ FileExt enc), Decompress],
           (if content r = [] then ?rw3 else Write ?rw3 (content r)))"
    using assms(1,9,10) r(1,3,4) sel
    by (simp add: ServeHTTP_selected[OF m] serve_opened transfer_def send_copied)
  then show ?thesis
    using assms(11,12,13) r(2)
    by (simp add: copied_fields Write_fields set_length_fields set_headers_fields)
qed

text \<open>The theorem at \<open>/b.bin\<close> with \<open>Accept-Encoding: identity\<close>.\<close>

theorem fallback_round_trip_witness:
  "Method (get ''/b.bin'' [(''Accept-Encoding'', ''identity'')]) = ''GET'' \<and>
   info demo_server ''b.bin'' = None \<and>
   info demo_server (''b.bin'' @ ''.gz'') = Some \<lparr>hash = ''10qtt5z46743h'', size_bytes = 5\<rparr> \<and>
   \<not> Contains (ToLower (LowerRunes demo_lib) ''identity'') ''gzip'' \<and>
   Open (fs demo_server) (''b.bin'' @ ''.gz'') = Inr (stream ''Zdata'') \<and>
   content (stream ''Zdata'') = toy_gzip ''data'' \<and>
   (\<forall>x. toy_gunzip (stream (toy_gzip x)) = Inr (stream x)) \<and>
   Body (snd (ServeHTTP demo_lib demo_server new_response
                (get ''/b.bin'' [(''Accept-Encoding'', ''identity'')]))) = ''data'' \<and>
   toy_gzip (Body (snd (ServeHTTP demo_lib demo_server new_response
                (get ''/b.bin'' [(''Accept-Encoding'', ''identity'')])))) = ''Zdata'' \<and>
   HeaderMap (snd (ServeHTTP demo_lib demo_server new_response
                (get ''/b.bin'' [(''Accept-Encoding'', ''identity'')]))) ''Content-Encoding'' = None \<and>
   HeaderMap (snd (ServeHTTP demo_lib demo_server new_response
                (get ''/b.bin'' [(''Accept-Encoding'', ''identity'')]))) ''Etag'' = Some ''10qtt5z46743hU'' \<and>
   fst (ServeHTTP demo_lib demo_server new_response
                (get ''/b.bin'' [(''Accept-Encoding'', ''identity'')])) = [FsOpen ''b.bin.gz'', Decompress]"
proof -
  let ?req = "get ''/b.bin'' [(''Accept-Encoding'', ''identity'')]"
  let ?enc = "GzipEncoding toy_gunzip"
  let ?i = "\<lparr>hash = ''10qtt5z46743h'', size_bytes = 5\<rparr>"
  have p: "TrimPrefix (Path ?req) ''/'' = ''b.bin''" by (simp add: get_def TrimPrefix_def)
  have ext: "FileExt ?enc = ''.gz''" by (simp add: GzipEncoding_def)
  have g: "Method ?req = ''GET''" by (simp add: get_def)
  have raw: "info demo_server ''b.bin'' = None" by (simp add: demo_defs)
  have mem: "?enc \<in> set (Encodings demo_server)" by (simp add: demo_server_def)
  have side: "info demo_server (''b.bin'' @ ''.gz'') = Some ?i" by (simp add: demo_defs)
  have only: "\<forall>c\<in>set (Encodings demo_server). info demo_server (''b.bin'' @ FileExt c) \<noteq> None \<longrightarrow> c = ?enc"
    by (simp add: demo_server_def)
  have nc: "\<not> Contains (ToLower (LowerRunes demo_lib) ''identity'') ''gzip''"
    by (simp add: ToLower_examples)
  have na: "Header_Get (Header ?req) ''Accept-Encoding'' = [] \<or>
            \<not> Contains (ToLower (LowerRunes demo_lib) (Header_Get (Header ?req) ''Accept-Encoding''))
                (ContentEncoding ?enc)"
    by (simp add: get_def Header_Get_def GzipEncoding_def ToLower_examples)
  have dec: "Decoder ?enc = Some toy_gunzip" by (simp add: GzipEncoding_def)
  have codec: "\<forall>g y. content g = toy_gzip y \<longrightarrow>
     (\<exists>r. toy_gunzip g = Inr r \<and> content r = y \<and> failure r = None \<and> \<not> seeker r)"
    by (simp add: toy_gzip_def toy_gunzip_def)
  have law: "\<forall>x. toy_gunzip (stream (toy_gzip x)) = Inr (stream x)"
    by (simp add: toy_gzip_def toy_gunzip_def stream_def)
  have inm: "Header_Get (Header ?req) ''If-None-Match'' \<noteq> hash ?i @ ''U''"
    by (simp add: get_def Header_Get_def)
  have o: "Open (fs demo_server) (''b.bin'' @ ''.gz'') = Inr (stream ''Zdata'')"
    by (simp add: demo_defs)
  have st: "content (stream ''Zdata'') = toy_gzip ''data''"
    by (simp add: toy_gzip_def stream_def)
  have b0: "Body new_response = []" by (simp add: new_response_def)
  have h0: "HeaderMap new_response ''Content-Encoding'' = None" by (simp add: new_response_def)
  note r = fallback_round_trip[where req = ?req and s = demo_server and enc = ?enc and i = ?i
              and dec = toy_gunzip and f = "stream ''Zdata''" and x = "''data''"
              and encode = toy_gzip and rw = new_response and L = demo_lib, unfolded p ext,
              OF g raw mem side only na dec codec inm o st b0 h0]
  have c: "content (stream ''Zdata'') = ''Zdata''" "hash ?i @ ''U'' = ''10qtt5z46743hU''"
          "''b.bin'' @ ''.gz'' = ''b.bin.gz''"
    by (simp_all add: stream_def)
  note r' = r[unfolded c]
  show ?thesis
    by (intro conjI g raw side nc o st law r'[THEN conjunct1] r'[THEN conjunct2, THEN conjunct1]
          r'[THEN conjunct2, THEN conjunct2, THEN conjunct1]
          r'[THEN conjunct2, THEN conjunct2, THEN conjunct2, THEN conjunct1]
          r'[THEN conjunct2, THEN conjunct2, THEN conjunct2, THEN conjunct2])
qed

text \<open>
  C5 as stated fails inside its own domain. Only \<open>b.bin.gz\<close> is stored for \<open>/b.bin\<close>,
  its bytes are the codec's encoding of \<open>data\<close>, the decoder is a left inverse of the
  encoder, and the request accepts no encoding; but it carries the fallback's validator
  in If-None-Match, so the answer is 304 with an empty body, whose re-compression is not
  the stored file. The second input shows that the decoded stream has to be
  forward-only: a decoder that returns a seekable reader hands the body to
  \<open>http.ServeContent\<close>, which answers \<open>If-None-Match: *\<close> (not the validator) with 304
  and no body.
\<close>

theorem fallback_not_modified_counterexample:
  "Method (get ''/b.bin'' [(''If-None-Match'', ''10qtt5z46743hU'')]) = ''GET'' \<and>
   info demo_server ''b.bin'' = None \<and>
   info demo_server ''b.bin.gz'' = Some \<lparr>hash = ''10qtt5z46743h'', size_bytes = 5\<rparr> \<and>
   Encodings demo_server = [GzipEncoding toy_gunzip] \<and>
   Open (fs demo_server) ''b.bin.gz'' = Inr (stream ''Zdata'') \<and>
   ''Zdata'' = toy_gzip ''data'' \<and>
   (\<forall>x. toy_gunzip (stream (toy_gzip x)) = Inr (stream x)) \<and>
   Header_Get (Header (get ''/b.bin'' [(''If-None-Match'', ''10qtt5z46743hU'')])) ''Accept-Encoding'' = [] \<and>
   status (snd (ServeHTTP demo_lib demo_server new_response
                  (get ''/b.bin'' [(''If-None-Match'', ''10qtt5z46743hU'')]))) = 304 \<and>
   Body (snd (ServeHTTP demo_lib demo_server new_response
                (get ''/b.bin'' [(''If-None-Match'', ''10qtt5z46743hU'')]))) = [] \<and>
   toy_gzip (Body (snd (ServeHTTP demo_lib demo_server new_response
                (get ''/b.bin'' [(''If-None-Match'', ''10qtt5z46743hU'')])))) \<noteq> ''Zdata'' \<and>
   Encodings buffered_server = [GzipEncoding buffered_gunzip] \<and>
   info buffered_server = info demo_server \<and> fs buffered_server = fs demo_server \<and>
   (\<forall>x. buffered_gunzip (stream (toy_gzip x)) = Inr ((stream x)\<lparr>seeker := True\<rparr>)) \<and>
   Header_Get (Header (get ''/b.bin'' [(''If-None-Match'', ''*'')])) ''If-None-Match'' \<noteq> ''10qtt5z46743hU'' \<and>
   status (snd (ServeHTTP star_lib buffered_server new_response
                  (get ''/b.bin'' [(''If-None-Match'', ''*'')]))) = 304 \<and>
   Body (snd (ServeHTTP star_lib buffered_server new_response
                (get ''/b.bin'' [(''If-None-Match'', ''*'')]))) = [] \<and>
   toy_gzip (Body (snd (ServeHTTP star_lib buffered_server new_response
                (get ''/b.bin'' [(''If-None-Match'', ''*'')])))) \<noteq> ''Zdata''"
  by (simp add: demo_defs seekable_defs http_defs serve_defs toy_gzip_def)

subsection \<open>C6: If-None-Match\<close>

text \<open>
  C6. For every resolved GET or HEAD request whose If-None-Match header equals the chosen
  validator, the handler does nothing but \<open>WriteHeader(304)\<close>: no file is opened and no
  decoder runs (the event list is empty), no header is set and no body is written; on a
  fresh response the result is status 304 with an empty header map and an empty body.
\<close>

theorem not_modified_short_circuit:
  assumes "Method req = ''GET'' \<or> Method req = ''HEAD''"
      and "selected L s req = Some (fn, suf, enc, h, cl, d)"
      and "Header_Get (Header req) ''If-None-Match'' = h"
  shows "ServeHTTP L s rw req = ([], WriteHeader rw 304) \<and>
         ServeHTTP L s new_response req =
           ([], \<lparr>Code = Some 304, HeaderMap = Map.empty, Body = []\<rparr>)"
  using assms
  by (simp add: ServeHTTP_selected serve_not_modified WriteHeader_def new_response_def)

text \<open>The theorem at a HEAD request that repeats the validator of the sidecar.\<close>

theorem not_modified_short_circuit_witness:
  "Method (head ''/a.txt'' [(''Accept-Encoding'', ''gzip''), (''If-None-Match'', ''1tzxhg7i77cmf'')]) = ''HEAD'' \<and>
   selected demo_lib demo_server (head ''/a.txt'' [(''Accept-Encoding'', ''gzip''), (''If-None-Match'', ''1tzxhg7i77cmf'')]) =
     Some (''a.txt'', ''.gz'', ''gzip'', ''1tzxhg7i77cmf'', 6, None) \<and>
   Header_Get (Header (head ''/a.txt'' [(''Accept-Encoding'', ''gzip''), (''If-None-Match'', ''1tzxhg7i77cmf'')]))
     ''If-None-Match'' = ''1tzxhg7i77cmf'' \<and>
   ServeHTTP demo_lib demo_server new_response
     (head ''/a.txt'' [(''Accept-Encoding'', ''gzip''), (''If-None-Match'', ''1tzxhg7i77cmf'')]) =
     ([], \<lparr>Code = Some 304, HeaderMap = Map.empty, Body = []\<rparr>)"
proof -
  let ?req = "head ''/a.txt'' [(''Accept-Encoding'', ''gzip''), (''If-None-Match'', ''1tzxhg7i77cmf'')]"
  have m: "Method ?req = ''HEAD''" by (simp add: head_def)
  then have m': "Method ?req = ''GET'' \<or> Method ?req = ''HEAD''" ..
  have s: "selected demo_lib demo_server ?req = Some (''a.txt'', ''.gz'', ''gzip'', ''1tzxhg7i77cmf'', 6, None)"
    by (simp add: selected_def demo_defs http_defs TrimPrefix_def ToLower_examples)
  have i: "Header_Get (Header ?req) ''If-None-Match'' = ''1tzxhg7i77cmf''"
    by (simp add: head_def Header_Get_def)
  note r = not_modified_short_circuit[OF m' s i, where rw = new_response, THEN conjunct2]
  show ?thesis by (intro conjI m s i r)
qed

subsection \<open>C7: the index\<close>

text \<open>
  C7. Let the file system show a finite tree at the root directory, let the options leave the
  index and the file system alone (they are unexported fields), and let the walk be
  given the depth of the tree. If every directory lists and every file opens and reads
  to its end, \<open>FileServer\<close> returns a server whose index is exactly the records of the
  files of the tree, stored under their cleaned walk paths: its keys are those paths and
  no others (so no key stands for a directory), and, the paths being distinct, each file's
  record is the base-36 text of the 64-bit FNV-1 hash of its bytes and their number
  (\<open>fileInfo_of\<close>). If any listing, open or read fails, \<open>FileServer\<close> panics with an
  error and returns no server. After construction the index cannot change: \<open>serve\<close> and
  \<open>ServeHTTP\<close> take the server as an argument and return only events and a response.
\<close>

theorem FileServer_index:
  assumes "realizes fsys ''.'' t"
      and "is_dir t"
      and "\<forall>opt\<in>set options. \<forall>s. info (opt s) = info s \<and> fs (opt s) = fs s"
      and "depth t \<le> fuel"
  shows "(readable t \<longrightarrow>
            (\<exists>s. FileServer fuel gunzip fsys options = Some (Inr s) \<and>
                 info s = store (files_of ''.'' t) Map.empty \<and>
                 dom (info s) = (\<lambda>(fn, bs). Clean fn) ` set (files_of ''.'' t) \<and>
                 (distinct (map (\<lambda>(fn, bs). Clean fn) (files_of ''.'' t)) \<longrightarrow>
                    (\<forall>(fn, bs)\<in>set (files_of ''.'' t).
                       info s (Clean fn) = Some (fileInfo_of bs)))))
       \<and> (\<not> readable t \<longrightarrow>
            (\<exists>err. FileServer fuel gunzip fsys options = Some (Inl err)))"
proof -
  let ?init = "\<lparr>OnError = default_OnError, Encodings = [GzipEncoding gunzip],
              info = Map.empty, fs = fsys\<rparr>"
  let ?srv = "fold (\<lambda>opt s. opt s) options ?init"
  from options_keep[OF assms(3), where start = ?init] have keep: "info ?srv = Map.empty" "fs ?srv = fsys"
    by simp_all
  note walk = walk_correct(1)[of fsys "''.''" t, rule_format, OF assms(1) assms(2) assms(4),
                 of Map.empty]
  show ?thesis
  proof (cases "readable t")
    case True
    with walk have w: "hashDir fuel fsys Map.empty ''.'' =
                         Some (Inr (store (files_of ''.'' t) Map.empty))" by blast
    let ?idx = "store (files_of ''.'' t) Map.empty"
    have "FileServer fuel gunzip fsys options = Some (Inr (?srv\<lparr>info := ?idx\<rparr>))"
      by (simp add: FileServer_def Let_def keep w)
    moreover have "dom ?idx = (\<lambda>(fn, bs). Clean fn) ` set (files_of ''.'' t)"
      by (simp add: dom_store)
    moreover have "distinct (map (\<lambda>(fn, bs). Clean fn) (files_of ''.'' t)) \<longrightarrow>
                   (\<forall>(fn, bs)\<in>set (files_of ''.'' t). ?idx (Clean fn) = Some (fileInfo_of bs))"
      by (auto simp: store_distinct)
    ultimately show ?thesis using True by simp
  next
    case False
    with walk obtain err where "hashDir fuel fsys Map.empty ''.'' = Some (Inl err)" by blast
    then have "FileServer fuel gunzip fsys options = Some (Inl err)"
      by (simp add: FileServer_def Let_def keep)
    with False show ?thesis by blast
  qed
qed

text \<open>
  The theorem at a tree with a subdirectory, built with the \<open>OnError\<close> option: the
  index has the two files under \<open>a.txt\<close> and \<open>deeper/b.bin.gz\<close> with their hashes and
  sizes, and nothing under \<open>deeper\<close>. On the file system that refuses every open,
  construction panics. The last conjunct is the server of the small site.
\<close>

theorem FileServer_index_witness:
  "realizes site_fs ''.'' (Dir site_entries) \<and>
   readable (Dir site_entries) \<and>
   depth (Dir site_entries) \<le> 2 \<and>
   files_of ''.'' (Dir site_entries) = [(''a.txt'', ''hello''), (''deeper/b.bin.gz'', ''Zdata'')] \<and>
   (\<exists>s. FileServer 2 toy_gunzip site_fs [OnError_option default_OnError] = Some (Inr s) \<and>
        dom (info s) = {''a.txt'', ''deeper/b.bin.gz''} \<and>
        info s ''a.txt'' = Some \<lparr>hash = ''1vhsp6t4dqdon'', size_bytes = 5\<rparr> \<and>
        info s ''deeper/b.bin.gz'' = Some \<lparr>hash = ''10qtt5z46743h'', size_bytes = 5\<rparr> \<and>
        info s ''deeper'' = None) \<and>
   realizes (fs locked_server) ''.'' (Dir locked_entries) \<and>
   \<not> readable (Dir locked_entries) \<and>
   (\<exists>err. FileServer 1 toy_gunzip (fs locked_server) [] = Some (Inl err)) \<and>
   FileServer 1 toy_gunzip demo_fs [] = Some (Inr demo_server)"
proof -
  have real: "realizes site_fs ''.'' (Dir site_entries)"
    by (simp add: site_entries_def site_fs_def entry_of_def Join_examples)
  have rd: "readable (Dir site_entries)"
    by (simp add: site_entries_def stream_def)
  have dp: "depth (Dir site_entries) \<le> 2"
    by (simp add: site_entries_def)
  have fl: "files_of ''.'' (Dir site_entries) = [(''a.txt'', ''hello''), (''deeper/b.bin.gz'', ''Zdata'')]"
    by (simp add: site_entries_def stream_def Join_examples)
  have opts: "\<forall>opt\<in>set [OnError_option default_OnError]. \<forall>s. info (opt s) = info s \<and> fs (opt s) = fs s"
    by (simp add: OnError_option_def)
  have isd: "\<And>es. is_dir (Dir es)" by simp
  note r = FileServer_index[OF real isd opts dp, of toy_gunzip, THEN conjunct1, THEN mp, OF rd]
  from r obtain s where s:
    "FileServer 2 toy_gunzip site_fs [OnError_option default_OnError] = Some (Inr s) \<and>
     info s = store (files_of ''.'' (Dir site_entries)) Map.empty \<and>
     dom (info s) = (\<lambda>(fn, bs). Clean fn) ` set (files_of ''.'' (Dir site_entries)) \<and>
     (distinct (map (\<lambda>(fn, bs). Clean fn) (files_of ''.'' (Dir site_entries))) \<longrightarrow>
        (\<forall>(fn, bs)\<in>set (files_of ''.'' (Dir site_entries)).
           info s (Clean fn) = Some (fileInfo_of bs)))" ..
  note s1 = s[THEN conjunct1]
  note s3 = s[THEN conjunct2, THEN conjunct2, THEN conjunct1, unfolded fl]
  note s4 = s[THEN conjunct2, THEN conjunct2, THEN conjunct2, unfolded fl]
  from s3 have d: "dom (info s) = {''a.txt'', ''deeper/b.bin.gz''}"
    by (simp add: Join_examples)
  have dist: "distinct (map (\<lambda>(fn, bs). Clean fn) [(''a.txt'', ''hello''), (''deeper/b.bin.gz'', ''Zdata'')])"
    by (simp add: Join_examples)
  from s4[THEN mp, OF dist]
  have v: "info s ''a.txt'' = Some \<lparr>hash = ''1vhsp6t4dqdon'', size_bytes = 5\<rparr>"
          "info s ''deeper/b.bin.gz'' = Some \<lparr>hash = ''10qtt5z46743h'', size_bytes = 5\<rparr>"
    by (simp_all add: Join_examples fileInfo_of_examples)
  have "''deeper'' \<notin> dom (info s)"
    unfolding d by simp
  then have n: "info s ''deeper'' = None"
    by (simp add: domIff)
  have ex1: "\<exists>s. FileServer 2 toy_gunzip site_fs [OnError_option default_OnError] = Some (Inr s) \<and>
        dom (info s) = {''a.txt'', ''deeper/b.bin.gz''} \<and>
        info s ''a.txt'' = Some \<lparr>hash = ''1vhsp6t4dqdon'', size_bytes = 5\<rparr> \<and>
        info s ''deeper/b.bin.gz'' = Some \<lparr>hash = ''10qtt5z46743h'', size_bytes = 5\<rparr> \<and>
        info s ''deeper'' = None"
    by (intro exI[of _ s] conjI s1 d v n)
  have real2: "realizes (fs locked_server) ''.'' (Dir locked_entries)"
    by (simp add: locked_entries_def locked_server_def demo_files_def demo_fs_def entry_of_def
          Join_examples Join_demo_files)
  have nrd: "\<not> readable (Dir locked_entries)"
    by (simp add: locked_entries_def demo_files_def)
  have dp2: "depth (Dir locked_entries) \<le> 1"
    by (simp add: locked_entries_def demo_files_def)
  have opts2: "\<forall>opt\<in>set []. \<forall>s. info (opt s) = info s \<and> fs (opt s) = fs s"
    by simp
  note r2 = FileServer_index[OF real2 isd opts2 dp2, of toy_gunzip, THEN conjunct2, THEN mp, OF nrd]
  show ?thesis by (intro conjI real rd dp fl ex1 real2 nrd r2 demo_built)
qed

subsection \<open>C8: HEAD\<close>




subsection \<open>C9: Content-Length\<close>

text \<open>
  C9, as amended. For every resolved GET or HEAD request that is not answered 304 and
  whose file opens, the response handed to the body transfer has no body byte written
  yet, and: on a verbatim transfer its Content-Length is the decimal stored size when
  that size is positive, and is left as it was when the stored size is zero; through the
  decompress fallback it is left as it was. A verbatim GET that copies a forward-only
  stream sends exactly the stored bytes and keeps that header.
\<close>

theorem content_length_before_body:
  assumes "Method req = ''GET'' \<or> Method req = ''HEAD''"
      and "selected L s req = Some (fn, suf, enc, h, cl, d)"
      and "Header_Get (Header req) ''If-None-Match'' \<noteq> h"
      and "Open (fs s) (fn @ suf) = Inr f"
  shows "\<exists>i rw3. info s (fn @ suf) = Some i \<and>
           rw3 = set_length (set_headers L rw fn enc h) cl \<and>
           ServeHTTP L s rw req =
             (if Method req = ''HEAD'' then ([FsOpen (fn @ suf)], rw3)
              else (FsOpen (fn @ suf) # fst (transfer L s rw3 req fn f d),
                    snd (transfer L s rw3 req fn f d))) \<and>
           Body rw3 = Body rw \<and> Code rw3 = Code rw \<and>
           (case d of
              None \<Rightarrow>
                HeaderMap rw3 ''Content-Length'' =
                  (if size_bytes i > 0 then Some (Itoa (size_bytes i))
                   else HeaderMap rw ''Content-Length'') \<and>
                (Method req = ''GET'' \<and> \<not> seeker f \<and> failure f = None \<longrightarrow>
                   Body (snd (ServeHTTP L s rw req)) = Body rw @ content f \<and>
                   HeaderMap (snd (ServeHTTP L s rw req)) ''Content-Length'' =
                     HeaderMap rw3 ''Content-Length'')
            | Some dec \<Rightarrow>
                HeaderMap rw3 ''Content-Length'' = HeaderMap rw ''Content-Length'')"
proof -
  from selected_cases[OF assms(2)] obtain i where
    i: "info s (fn @ suf) = Some i"
       "case d of None \<Rightarrow> h = hash i \<and> cl = size_bytes i
        | Some dec \<Rightarrow> h = hash i @ ''U'' \<and> cl = 0 \<and> enc = []"
    by auto
  let ?rw3 = "set_length (set_headers L rw fn enc h) cl"
  have run: "ServeHTTP L s rw req =
             (if Method req = ''HEAD'' then ([FsOpen (fn @ suf)], ?rw3)
              else (FsOpen (fn @ suf) # fst (transfer L s ?rw3 req fn f d),
                    snd (transfer L s ?rw3 req fn f d)))"
    using assms by (simp add: ServeHTTP_selected serve_opened)
  have len: "case d of
              None \<Rightarrow>
                HeaderMap ?rw3 ''Content-Length'' =
                  (if size_bytes i > 0 then Some (Itoa (size_bytes i))
                   else HeaderMap rw ''Content-Length'') \<and>
                (Method req = ''GET'' \<and> \<not> seeker f \<and> failure f = None \<longrightarrow>
                   Body (snd (ServeHTTP L s rw req)) = Body rw @ content f \<and>
                   HeaderMap (snd (ServeHTTP L s rw req)) ''Content-Length'' =
                     HeaderMap ?rw3 ''Content-Length'')
            | Some dec \<Rightarrow>
                HeaderMap ?rw3 ''Content-Length'' = HeaderMap rw ''Content-Length''"
  proof (cases d)
    case None
    with i(2) have cl: "cl = size_bytes i" by simp
    show ?thesis
      using None cl
      by (simp add: run transfer_def send_copied copied_fields set_length_fields set_headers_fields)
  next
    case (Some dec)
    with i(2) have "cl = 0" by simp
    with Some show ?thesis by (simp add: set_length_fields set_headers_fields)
  qed
  show ?thesis
    using i(1) run len
    by (intro exI[of _ i] exI[of _ ?rw3]) (simp add: set_length_fields set_headers_fields)
qed

text \<open>The theorem at the six-byte sidecar of \<open>/a.txt\<close>: Content-Length is \<open>6\<close>.\<close>

theorem content_length_before_body_witness:
  "Method (get ''/a.txt'' [(''Accept-Encoding'', ''gzip'')]) = ''GET'' \<and>
   selected demo_lib demo_server (get ''/a.txt'' [(''Accept-Encoding'', ''gzip'')]) =
     Some (''a.txt'', ''.gz'', ''gzip'', ''1tzxhg7i77cmf'', 6, None) \<and>
   Open (fs demo_server) (''a.txt'' @ ''.gz'') = Inr (stream ''Zhello'') \<and>
   (\<exists>i rw3. info demo_server (''a.txt'' @ ''.gz'') = Some i \<and>
      rw3 = set_length (set_headers demo_lib new_response ''a.txt'' ''gzip'' ''1tzxhg7i77cmf'') 6 \<and>
      ServeHTTP demo_lib demo_server new_response (get ''/a.txt'' [(''Accept-Encoding'', ''gzip'')]) =
        (if Method (get ''/a.txt'' [(''Accept-Encoding'', ''gzip'')]) = ''HEAD''
         then ([FsOpen (''a.txt'' @ ''.gz'')], rw3)
         else (FsOpen (''a.txt'' @ ''.gz'') #
                 fst (transfer demo_lib demo_server rw3 (get ''/a.txt'' [(''Accept-Encoding'', ''gzip'')])
                        ''a.txt'' (stream ''Zhello'') None),
               snd (transfer demo_lib demo_server rw3 (get ''/a.txt'' [(''Accept-Encoding'', ''gzip'')])
                      ''a.txt'' (stream ''Zhello'') None))) \<and>
      Body rw3 = Body new_response \<and> Code rw3 = Code new_response \<and>
      (case None :: decoder option of
         None \<Rightarrow>
           HeaderMap rw3 ''Content-Length'' =
             (if size_bytes i > 0 then Some (Itoa (size_bytes i))
              else HeaderMap new_response ''Content-Length'') \<and>
           (Method (get ''/a.txt'' [(''Accept-Encoding'', ''gzip'')]) = ''GET'' \<and>
            \<not> seeker (stream ''Zhello'') \<and> failure (stream ''Zhello'') = None \<longrightarrow>
              Body (snd (ServeHTTP demo_lib demo_server new_response
                           (get ''/a.txt'' [(''Accept-Encoding'', ''gzip'')]))) =
                Body new_response @ content (stream ''Zhello'') \<and>
              HeaderMap (snd (ServeHTTP demo_lib demo_server new_response
                           (get ''/a.txt'' [(''Accept-Encoding'', ''gzip'')]))) ''Content-Length'' =
                HeaderMap rw3 ''Content-Length'')
       | Some dec \<Rightarrow> HeaderMap rw3 ''Content-Length'' = HeaderMap new_response ''Content-Length'')) \<and>
   HeaderMap (snd (ServeHTTP demo_lib demo_server new_response
                (get ''/a.txt'' [(''Accept-Encoding'', ''gzip'')]))) ''Content-Length'' = Some ''6'' \<and>
   Body (snd (ServeHTTP demo_lib demo_server new_response
                (get ''/a.txt'' [(''Accept-Encoding'', ''gzip'')]))) = ''Zhello''"
proof -
  let ?req = "get ''/a.txt'' [(''Accept-Encoding'', ''gzip'')]"
  have g: "Method ?req = ''GET''" by (simp add: get_def)
  then have m: "Method ?req = ''GET'' \<or> Method ?req = ''HEAD''" ..
  have s: "selected demo_lib demo_server ?req = Some (''a.txt'', ''.gz'', ''gzip'', ''1tzxhg7i77cmf'', 6, None)"
    by (simp add: selected_def demo_defs http_defs TrimPrefix_def ToLower_examples)
  have i: "Header_Get (Header ?req) ''If-None-Match'' \<noteq> ''1tzxhg7i77cmf''"
    by (simp add: get_def Header_Get_def)
  have o: "Open (fs demo_server) (''a.txt'' @ ''.gz'') = Inr (stream ''Zhello'')"
    by (simp add: demo_defs)
  note r = content_length_before_body[OF m s i o, where rw = new_response]
  have l: "HeaderMap (snd (ServeHTTP demo_lib demo_server new_response ?req)) ''Content-Length'' = Some ''6''"
    by (simp add: ToLower_examples Itoa_examples demo_defs http_defs serve_defs)
  have b: "Body (snd (ServeHTTP demo_lib demo_server new_response ?req)) = ''Zhello''"
    by (simp add: ToLower_examples Itoa_examples demo_defs http_defs serve_defs)
  show ?thesis by (intro conjI g s o r l b)
qed

text \<open>
  C9 as stated fails at an empty stored file. The sidecar \<open>e.css.gz\<close> has size 0; it
  is served verbatim with Content-Encoding \<open>gzip\<close>, and the guard \<open>cl > 0\<close> leaves
  Content-Length unset, where the claim asks for the exact size, \<open>0\<close>.
\<close>

theorem content_length_zero_counterexample:
  "Method (get ''/e.css'' [(''Accept-Encoding'', ''gzip'')]) = ''GET'' \<and>
   selected demo_lib demo_server (get ''/e.css'' [(''Accept-Encoding'', ''gzip'')]) =
     Some (''e.css'', ''.gz'', ''gzip'', ''33niihzj4ux45'', 0, None) \<and>
   info demo_server ''e.css.gz'' = Some \<lparr>hash = ''33niihzj4ux45'', size_bytes = 0\<rparr> \<and>
   Open (fs demo_server) ''e.css.gz'' = Inr (stream []) \<and>
   fst (ServeHTTP demo_lib demo_server new_response (get ''/e.css'' [(''Accept-Encoding'', ''gzip'')])) =
     [FsOpen ''e.css.gz''] \<and>
   HeaderMap (snd (ServeHTTP demo_lib demo_server new_response
                (get ''/e.css'' [(''Accept-Encoding'', ''gzip'')]))) ''Content-Encoding'' = Some ''gzip'' \<and>
   HeaderMap (snd (ServeHTTP demo_lib demo_server new_response
                (get ''/e.css'' [(''Accept-Encoding'', ''gzip'')]))) ''Content-Length'' = None \<and>
   HeaderMap (snd (ServeHTTP demo_lib demo_server new_response
                (get ''/e.css'' [(''Accept-Encoding'', ''gzip'')]))) ''Content-Length'' \<noteq> Some (Itoa 0)"
  by (simp add: selected_def ToLower_examples demo_defs http_defs serve_defs)

subsection \<open>C10: the response handed to the error hook\<close>

text \<open>
  C10. For every resolved GET or HEAD request not answered 304: if opening the stored
  file fails, the hook is called on the response that already carries the ETag, the
  Content-Type and, for a non-empty encoding, the Content-Encoding; the ETag is removed
  before the hook is called when the decoder fails, and only then: when the copy of the
  body fails, the hook is called with the ETag still set.
\<close>

theorem error_hook_headers:
  assumes "Method req = ''GET'' \<or> Method req = ''HEAD''"
      and "selected L s req = Some (fn, suf, enc, h, cl, d)"
      and "Header_Get (Header req) ''If-None-Match'' \<noteq> h"
  shows "(\<forall>err. Open (fs s) (fn @ suf) = Inl err \<longrightarrow>
            ServeHTTP L s rw req =
              ([FsOpen (fn @ suf)], OnError s (set_headers L rw fn enc h) req err) \<and>
            HeaderMap (set_headers L rw fn enc h) ''Etag'' = Some h \<and>
            HeaderMap (set_headers L rw fn enc h) ''Content-Type'' = Some (ctype_of L fn) \<and>
            (enc \<noteq> [] \<longrightarrow> HeaderMap (set_headers L rw fn enc h) ''Content-Encoding'' = Some enc))
       \<and> (\<forall>f dec err. Method req = ''GET'' \<and> Open (fs s) (fn @ suf) = Inr f \<and>
                       d = Some dec \<and> dec f = Inl err \<longrightarrow>
            ServeHTTP L s rw req =
              ([FsOpen (fn @ suf), Decompress],
               OnError s (Header_Del (set_length (set_headers L rw fn enc h) cl) ''Etag'') req err) \<and>
            HeaderMap (Header_Del (set_length (set_headers L rw fn enc h) cl) ''Etag'') ''Etag'' = None)
       \<and> (\<forall>f r err. Method req = ''GET'' \<and> Open (fs s) (fn @ suf) = Inr f \<and>
                     (case d of None \<Rightarrow> Inr f | Some dec \<Rightarrow> dec f) = Inr r \<and>
                     \<not> seeker r \<and> failure r = Some err \<longrightarrow>
            snd (ServeHTTP L s rw req) =
              OnError s
                (if content r = [] then set_length (set_headers L rw fn enc h) cl
                 else Write (set_length (set_headers L rw fn enc h) cl) (content r)) req err \<and>
            HeaderMap
                (if content r = [] then set_length (set_headers L rw fn enc h) cl
                 else Write (set_length (set_headers L rw fn enc h) cl) (content r)) ''Etag'' = Some h)"
proof (intro conjI allI impI)
  fix err
  assume "Open (fs s) (fn @ suf) = Inl err"
  with assms show "ServeHTTP L s rw req =
      ([FsOpen (fn @ suf)], OnError s (set_headers L rw fn enc h) req err)"
    by (simp add: ServeHTTP_selected serve_open_failed)
next
  fix f dec err
  assume "Method req = ''GET'' \<and> Open (fs s) (fn @ suf) = Inr f \<and> d = Some dec \<and> dec f = Inl err"
  with assms show "ServeHTTP L s rw req =
      ([FsOpen (fn @ suf), Decompress],
       OnError s (Header_Del (set_length (set_headers L rw fn enc h) cl) ''Etag'') req err)"
    by (simp add: ServeHTTP_selected serve_opened transfer_def)
next
  fix f r err
  assume "Method req = ''GET'' \<and> Open (fs s) (fn @ suf) = Inr f \<and>
          (case d of None \<Rightarrow> Inr f | Some dec \<Rightarrow> dec f) = Inr r \<and>
          \<not> seeker r \<and> failure r = Some err"
  with assms show "snd (ServeHTTP L s rw req) =
      OnError s
        (if content r = [] then set_length (set_headers L rw fn enc h) cl
         else Write (set_length (set_headers L rw fn enc h) cl) (content r)) req err"
    by (auto simp: ServeHTTP_selected serve_opened transfer_def send_copy_failed
             split: option.splits)
qed (simp_all add: set_headers_fields set_length_fields copied_fields Header_Del_def)

text \<open>
  The theorem at its three failures: a file system that refuses the open, the sidecar
  that is no archive, and a read that breaks off.
\<close>

theorem error_hook_headers_witness:
  "Open (fs locked_server) (''a.txt'' @ ''.gz'') = Inl (Err ''permission denied'') \<and>
   ServeHTTP demo_lib locked_server new_response (get ''/a.txt'' [(''Accept-Encoding'', ''gzip'')]) =
     ([FsOpen (''a.txt'' @ ''.gz'')],
      OnError locked_server (set_headers demo_lib new_response ''a.txt'' ''gzip'' ''1tzxhg7i77cmf'')
        (get ''/a.txt'' [(''Accept-Encoding'', ''gzip'')]) (Err ''permission denied'')) \<and>
   HeaderMap (set_headers demo_lib new_response ''a.txt'' ''gzip'' ''1tzxhg7i77cmf'') ''Etag'' = Some ''1tzxhg7i77cmf'' \<and>
   HeaderMap (set_headers demo_lib new_response ''a.txt'' ''gzip'' ''1tzxhg7i77cmf'') ''Content-Type'' =
     Some ''text/plain; charset=utf-8'' \<and>
   HeaderMap (set_headers demo_lib new_response ''a.txt'' ''gzip'' ''1tzxhg7i77cmf'') ''Content-Encoding'' =
     Some ''gzip'' \<and>
   toy_gunzip (stream ''junk'') = Inl (Err ''gzip: invalid header'') \<and>
   ServeHTTP demo_lib demo_server new_response (get ''/bad.png'' []) =
     ([FsOpen (''bad.png'' @ ''.gz''), Decompress],
      OnError demo_server
        (Header_Del (set_length (set_headers demo_lib new_response ''bad.png'' [] ''3g54i76e4wrkbU'') 0) ''Etag'')
        (get ''/bad.png'' []) (Err ''gzip: invalid header'')) \<and>
   HeaderMap (Header_Del (set_length (set_headers demo_lib new_response ''bad.png'' [] ''3g54i76e4wrkbU'') 0) ''Etag'')
     ''Etag'' = None \<and>
   Open (fs flaky_server) (''a.txt'' @ []) =
     Inr \<lparr>content = ''Zhe'', failure = Some (Err ''unexpected EOF''), seeker = False\<rparr> \<and>
   HeaderMap (Write (set_length (set_headers demo_lib new_response ''a.txt'' [] ''1vhsp6t4dqdon'') 5) ''Zhe'')
     ''Etag'' = Some ''1vhsp6t4dqdon''"
proof -
  let ?r1 = "get ''/a.txt'' [(''Accept-Encoding'', ''gzip'')]"
  let ?r2 = "get ''/bad.png'' []"
  have m: "\<And>p hs. Method (get p hs) = ''GET'' \<or> Method (get p hs) = ''HEAD''"
    by (simp add: get_def)
  have s1: "selected demo_lib locked_server ?r1 = Some (''a.txt'', ''.gz'', ''gzip'', ''1tzxhg7i77cmf'', 6, None)"
    by (simp add: selected_def demo_defs http_defs TrimPrefix_def ToLower_examples)
  have i1: "Header_Get (Header ?r1) ''If-None-Match'' \<noteq> ''1tzxhg7i77cmf''"
    by (simp add: get_def Header_Get_def)
  have o1: "Open (fs locked_server) (''a.txt'' @ ''.gz'') = Inl (Err ''permission denied'')"
    by (simp add: demo_defs)
  note a = error_hook_headers[OF m s1 i1, where rw = new_response, THEN conjunct1, THEN spec, THEN mp, OF o1]
  have ct: "ctype_of demo_lib ''a.txt'' = ''text/plain; charset=utf-8''"
    by (simp add: ctype_of_def demo_lib_def Ext_def)
  have ne: "''gzip'' \<noteq> []" by simp
  note a1 = a[THEN conjunct1]
  note a2 = a[THEN conjunct2, THEN conjunct1]
  note a3 = a[THEN conjunct2, THEN conjunct2, THEN conjunct1, unfolded ct]
  note a4 = a[THEN conjunct2, THEN conjunct2, THEN conjunct2, THEN mp, OF ne]
  have s2: "selected demo_lib demo_server ?r2 = Some (''bad.png'', ''.gz'', [], ''3g54i76e4wrkbU'', 0, Some toy_gunzip)"
    by (simp add: selected_def demo_defs http_defs TrimPrefix_def)
  have i2: "Header_Get (Header ?r2) ''If-None-Match'' \<noteq> ''3g54i76e4wrkbU''"
    by (simp add: get_def Header_Get_def)
  have o2: "Open (fs demo_server) (''bad.png'' @ ''.gz'') = Inr (stream ''junk'')"
    by (simp add: demo_defs)
  have d2: "toy_gunzip (stream ''junk'') = Inl (Err ''gzip: invalid header'')"
    by (simp add: toy_gunzip_def stream_def)
  have g2: "Method ?r2 = ''GET''" by (simp add: get_def)
  note b = error_hook_headers[OF m s2 i2, where rw = new_response, THEN conjunct2, THEN conjunct1,
             THEN spec, THEN spec, THEN spec, THEN mp, OF conjI[OF g2 conjI[OF o2 conjI[OF refl d2]]]]
  let ?r3 = "get ''/a.txt'' []"
  let ?cut = "\<lparr>content = ''Zhe'', failure = Some (Err ''unexpected EOF''), seeker = False\<rparr>"
  have s3: "selected demo_lib flaky_server ?r3 = Some (''a.txt'', [], [], ''1vhsp6t4dqdon'', 5, None)"
    by (simp add: selected_def demo_defs http_defs TrimPrefix_def)
  have i3: "Header_Get (Header ?r3) ''If-None-Match'' \<noteq> ''1vhsp6t4dqdon''"
    by (simp add: get_def Header_Get_def)
  have g3: "Method ?r3 = ''GET''" by (simp add: get_def)
  have o3: "Open (fs flaky_server) (''a.txt'' @ []) = Inr ?cut"
    by (simp add: demo_defs)
  have c3: "(case None :: decoder option of None \<Rightarrow> Inr ?cut | Some dec \<Rightarrow> dec ?cut) = Inr ?cut"
    by simp
  have n3: "\<not> seeker ?cut" by simp
  have f3: "failure ?cut = Some (Err ''unexpected EOF'')" by simp
  note c = error_hook_headers[OF m s3 i3, where rw = new_response, THEN conjunct2, THEN conjunct2,
             THEN spec, THEN spec, THEN spec, THEN mp,
             OF conjI[OF g3 conjI[OF o3 conjI[OF c3 conjI[OF n3 f3]]]], THEN conjunct2]
  have c': "HeaderMap (Write (set_length (set_headers demo_lib new_response ''a.txt'' [] ''1vhsp6t4dqdon'') 5) ''Zhe'')
              ''Etag'' = Some ''1vhsp6t4dqdon''"
    using c by simp
  show ?thesis by (intro conjI o1 a1 a2 a3 a4 d2 b[THEN conjunct1] b[THEN conjunct2] o3 c')
qed

end
